theory Spec2Isabelle
  imports Complex_Main
begin

section \<open>Values of the host language\<close>

text \<open>
  The service is a JavaScript program (\<^verbatim>\<open>src/server.js\<close>). Readings and log records are
  parsed JSON documents, so a field can hold any JSON value, or be missing (\<^verbatim>\<open>undefined\<close>).
  Numbers are IEEE doubles: the finite ones are embedded in the reals (both zeros are the
  real \<open>0\<close>), the others are named.

  A string value is the list of its UTF-16 code units, as the language counts and compares
  them. The texts of the log files and of the serial stream are kept as lists of
  characters: the program only ever looks for the line feed and the two braces in them.
\<close>

type_synonym jsstring = "nat list"

text \<open>The code units of an ASCII literal.\<close>

definition js :: "string \<Rightarrow> jsstring" where
  "js s = map of_char s"

datatype jsnumber = NumNaN | NumInf bool | NumFin real

datatype jsval =
    JUndefined
  | JNull
  | JBool bool
  | JNum jsnumber
  | JStr jsstring
  | JArr "jsval list"
  | JObj "(jsstring \<times> jsval) list"

datatype jstype = TUndefined | TObject | TBoolean | TNumber | TString

fun typeof :: "jsval \<Rightarrow> jstype" where
  "typeof JUndefined = TUndefined"
| "typeof JNull = TObject"
| "typeof (JBool b) = TBoolean"
| "typeof (JNum n) = TNumber"
| "typeof (JStr s) = TString"
| "typeof (JArr vs) = TObject"
| "typeof (JObj kvs) = TObject"

text \<open>\<^verbatim>\<open>p !== 0\<close> on a number: both zeros are equal to \<open>0\<close>, \<^verbatim>\<open>NaN\<close> and the infinities are not.\<close>

fun num_neq_zero :: "jsnumber \<Rightarrow> bool" where
  "num_neq_zero (NumFin x) = (x \<noteq> 0)"
| "num_neq_zero NumNaN = True"
| "num_neq_zero (NumInf s) = True"

text \<open>
  The conversion to a boolean that \<^verbatim>\<open>&&\<close> and \<^verbatim>\<open>? :\<close> apply: \<^verbatim>\<open>undefined\<close>, \<^verbatim>\<open>null\<close>,
  \<^verbatim>\<open>false\<close>, zero, \<^verbatim>\<open>NaN\<close> and the empty string are false, every other value is true.
\<close>

fun truthy :: "jsval \<Rightarrow> bool" where
  "truthy JUndefined = False"
| "truthy JNull = False"
| "truthy (JBool b) = b"
| "truthy (JNum NumNaN) = False"
| "truthy (JNum (NumInf s)) = True"
| "truthy (JNum (NumFin x)) = (x \<noteq> 0)"
| "truthy (JStr s) = (s \<noteq> [])"
| "truthy (JArr vs) = True"
| "truthy (JObj kvs) = True"

text \<open>
  \<^verbatim>\<open>String.prototype.trim\<close> removes white space and line terminators from both ends: TAB, LF,
  VT, FF, CR, SPACE, NO-BREAK SPACE, U+1680, U+2000 to U+200A, U+2028, U+2029, U+202F, U+205F,
  U+3000 and U+FEFF.
\<close>

definition is_js_space :: "nat \<Rightarrow> bool" where
  "is_js_space c =
     (c \<in> {0x09, 0x0A, 0x0B, 0x0C, 0x0D, 0x20, 0xA0, 0x1680, 0x2028, 0x2029, 0x202F, 0x205F,
            0x3000, 0xFEFF}
      \<or> (0x2000 \<le> c \<and> c \<le> 0x200A))"

definition trim :: "jsstring \<Rightarrow> jsstring" where
  "trim s = rev (dropWhile is_js_space (rev (dropWhile is_js_space s)))"

text \<open>
  \<^verbatim>\<open>String.prototype.toLowerCase\<close>, as far as its result can be told apart from ASCII text,
  which is all the program compares it with. The lower case of an ASCII code unit is an
  ASCII code unit. Above U+007F exactly two code units have ASCII in their lower case:
  KELVIN SIGN U+212A gives \<^verbatim>\<open>k\<close>, and U+0130 gives \<^verbatim>\<open>i\<close> followed by U+0307. The lower case
  of every other code unit, whatever surrounds it, consists of code units above U+007F;
  which ones is left open (\<open>High\<close>).
\<close>

datatype lowered = Ascii nat | High

definition lower_unit :: "nat \<Rightarrow> lowered list" where
  "lower_unit c =
     (if 0x41 \<le> c \<and> c \<le> 0x5A then [Ascii (c + 0x20)]
      else if c < 0x80 then [Ascii c]
      else if c = 0x212A then [Ascii 0x6B]
      else if c = 0x0130 then [Ascii 0x69, High]
      else [High])"

definition toLowerCase :: "jsstring \<Rightarrow> lowered list" where
  "toLowerCase s = concat (map lower_unit s)"


section \<open>Readings and the status classifier\<close>

text \<open>
  A reading is a parsed JSON object: its \<^verbatim>\<open>power\<close> field and its \<^verbatim>\<open>timestamp\<close> field
  (\<open>JUndefined\<close> where the object has none) and its remaining fields. A stamped reading is
  the object \<^verbatim>\<open>{...reading, timestamp: new Date().toISOString()}\<close>, whose timestamp is a
  string; a reading parsed from a line of the log has whatever the line holds.
\<close>

record reading =
  power :: jsval
  timestamp :: jsval
  other :: "(jsstring \<times> jsval) list"

text \<open>\<^verbatim>\<open>computeOnline\<close>, lines 51-58.\<close>

definition computeOnline :: "reading \<Rightarrow> bool" where
  "computeOnline r =
     (let p = power r in
      if typeof p = TBoolean then (case p of JBool b \<Rightarrow> b | _ \<Rightarrow> False)
      else if typeof p = TNumber then (case p of JNum n \<Rightarrow> num_neq_zero n | _ \<Rightarrow> False)
      else if typeof p = TString
        then (case p of
                JStr s \<Rightarrow> toLowerCase (trim s) = map Ascii (js ''on'') \<or> trim s = js ''1''
              | _ \<Rightarrow> False)
      else False)"

section \<open>Numbers, dates and the clock\<close>

text \<open>
  Time values and the two totals are millisecond counts. They are modelled as integers,
  with \<open>None\<close> for \<^verbatim>\<open>NaN\<close>, which is what \<^verbatim>\<open>getTime()\<close> returns for a date that did not
  parse and what every arithmetic operation on it returns in turn.
\<close>

type_synonym number = "int option"

definition num_sub :: "number \<Rightarrow> number \<Rightarrow> number" where
  "num_sub a b = (case a of None \<Rightarrow> None | Some x \<Rightarrow> (case b of None \<Rightarrow> None | Some y \<Rightarrow> Some (x - y)))"

definition num_add :: "number \<Rightarrow> number \<Rightarrow> number" where
  "num_add a b = (case a of None \<Rightarrow> None | Some x \<Rightarrow> (case b of None \<Rightarrow> None | Some y \<Rightarrow> Some (x + y)))"

text \<open>\<^verbatim>\<open>Math.max(0, d)\<close> is \<^verbatim>\<open>NaN\<close> when \<open>d\<close> is.\<close>

definition Math_max0 :: "number \<Rightarrow> number" where
  "Math_max0 d = (case d of None \<Rightarrow> None | Some x \<Rightarrow> Some (max 0 x))"

text \<open>\<^verbatim>\<open>d > 0\<close> is false when \<open>d\<close> is \<^verbatim>\<open>NaN\<close>.\<close>

definition num_gt0 :: "number \<Rightarrow> bool" where
  "num_gt0 d = (case d of None \<Rightarrow> False | Some x \<Rightarrow> 0 < x)"

text \<open>
  \<^verbatim>\<open>new Date(v).getTime()\<close>. The language fixes the result for the values that are not strings
  or objects: \<^verbatim>\<open>undefined\<close> gives \<^verbatim>\<open>NaN\<close>; \<^verbatim>\<open>null\<close>, \<^verbatim>\<open>false\<close> and \<^verbatim>\<open>true\<close> are read as the
  numbers 0, 0 and 1; a number is a time value when it is finite and at most 8.64e15 in
  size, cut to an integer towards zero. The empty string is no date. Which other strings
  are dates, and what the string an array or an object converts to is read as, is left to
  the host: that is the parameter \<open>dp\<close> of everything below.
\<close>

type_synonym date_parse = "jsval \<Rightarrow> int option"

fun getTime :: "date_parse \<Rightarrow> jsval \<Rightarrow> number" where
  "getTime dp JUndefined = None"
| "getTime dp JNull = Some 0"
| "getTime dp (JBool b) = Some (if b then 1 else 0)"
| "getTime dp (JNum NumNaN) = None"
| "getTime dp (JNum (NumInf s)) = None"
| "getTime dp (JNum (NumFin x)) =
     (if \<bar>x\<bar> \<le> 8640000000000000 then Some (if 0 \<le> x then \<lfloor>x\<rfloor> else \<lceil>x\<rceil>) else None)"
| "getTime dp (JStr s) = (if s = [] then None else dp (JStr s))"
| "getTime dp (JArr vs) = dp (JArr vs)"
| "getTime dp (JObj kvs) = dp (JObj kvs)"


section \<open>Cumulative statistics\<close>

text \<open>
  \<open>last_status\<close> is \<^verbatim>\<open>null\<close> (\<open>None\<close>) or a boolean; \<open>last_timestamp\<close> is \<^verbatim>\<open>null\<close> (\<open>JNull\<close>) or
  the timestamp of a reading, whatever value that is.
\<close>

record stats =
  total_online_ms :: number
  total_offline_ms :: number
  last_status :: "bool option"
  last_timestamp :: jsval

text \<open>The module-level \<^verbatim>\<open>stats\<close> at start-up, lines 20-25.\<close>

definition initial_stats :: stats where
  "initial_stats =
     \<lparr>total_online_ms = Some 0, total_offline_ms = Some 0,
      last_status = None, last_timestamp = JNull\<rparr>"

text \<open>\<^verbatim>\<open>resetStats\<close>, lines 27-32.\<close>

definition resetStats :: stats where
  "resetStats =
     \<lparr>total_online_ms = Some 0, total_offline_ms = Some 0,
      last_status = None, last_timestamp = JNull\<rparr>"


section \<open>Duration formatting and state segments\<close>

fun nat_digits :: "nat \<Rightarrow> jsstring" where
  "nat_digits n =
     (if n < 10 then [48 + n]
      else nat_digits (n div 10) @ [48 + n mod 10])"

text \<open>\<^verbatim>\<open>Number.prototype.toString\<close> on an integer or \<^verbatim>\<open>NaN\<close>.\<close>

definition num_toString :: "number \<Rightarrow> jsstring" where
  "num_toString a =
     (case a of
        None \<Rightarrow> js ''NaN''
      | Some i \<Rightarrow> if i < 0 then js ''-'' @ nat_digits (nat (- i)) else nat_digits (nat i))"

definition padStart2 :: "jsstring \<Rightarrow> jsstring" where
  "padStart2 s = replicate (2 - length s) 48 @ s"

text \<open>\<^verbatim>\<open>Math.floor(a / b)\<close> for a positive integer \<open>b\<close>.\<close>

definition num_floor_div :: "number \<Rightarrow> int \<Rightarrow> number" where
  "num_floor_div a b = (case a of None \<Rightarrow> None | Some x \<Rightarrow> Some (x div b))"

text \<open>The remainder operator \<^verbatim>\<open>%\<close> takes the sign of the dividend.\<close>

definition num_rem :: "number \<Rightarrow> int \<Rightarrow> number" where
  "num_rem a b = (case a of None \<Rightarrow> None | Some x \<Rightarrow> Some (sgn x * (\<bar>x\<bar> mod \<bar>b\<bar>)))"

text \<open>\<^verbatim>\<open>formatMs\<close>, lines 60-72, on an integral millisecond count or \<^verbatim>\<open>NaN\<close>.\<close>

definition formatMs :: "number \<Rightarrow> jsstring" where
  "formatMs ms =
     (let totalSeconds = num_floor_div ms 1000;
          hours = padStart2 (num_toString (num_floor_div totalSeconds 3600));
          minutes = padStart2 (num_toString (num_floor_div (num_rem totalSeconds 3600) 60));
          seconds = padStart2 (num_toString (num_rem totalSeconds 60))
      in hours @ js '':'' @ minutes @ js '':'' @ seconds)"

text \<open>
  A record of the segment log. \<^verbatim>\<open>appendStatsSegment\<close> (lines 34-49) writes strings into
  \<^verbatim>\<open>snapshot_at\<close> and \<^verbatim>\<open>end_at\<close> and the last timestamp into \<^verbatim>\<open>start_at\<close>; a record parsed from a
  line of the log has whatever the line holds.
\<close>

record segment =
  snapshot_at :: jsval
  status :: jsstring
  start_at :: jsval
  end_at :: jsval
  duration_ms :: number
  duration_hms :: jsstring


section \<open>Sorting\<close>

text \<open>
  \<^verbatim>\<open>Array.prototype.sort\<close> with a comparator, as the engine of the platform (V8) runs it. The
  number a comparator returns is read as \<open>0\<close> when it is \<^verbatim>\<open>NaN\<close>. The array is cut into runs:
  a run starts with the longest stretch that is already ascending (each element not
  below the one before it) or strictly descending, the latter reversed, and is brought up
  to the minimal run length by binary insertion of the elements that follow. A consistent
  comparator makes every step stable; a comparator that returns \<^verbatim>\<open>NaN\<close> does not order the
  array at all, and what comes out is what these steps leave.
\<close>

definition cmp_lt0 :: "number \<Rightarrow> bool" where
  "cmp_lt0 v = (case v of None \<Rightarrow> False | Some d \<Rightarrow> d < 0)"

text \<open>How many of the elements after \<open>prev\<close> continue the run.\<close>

fun run_tail :: "('a \<Rightarrow> 'a \<Rightarrow> number) \<Rightarrow> bool \<Rightarrow> 'a \<Rightarrow> 'a list \<Rightarrow> nat" where
  "run_tail cmp isDescending prev [] = 0"
| "run_tail cmp isDescending prev (cur # rest) =
     (let order = cmp cur prev in
      if isDescending
      then (if \<not> cmp_lt0 order then 0 else Suc (run_tail cmp isDescending cur rest))
      else (if cmp_lt0 order then 0 else Suc (run_tail cmp isDescending cur rest)))"

text \<open>\<^verbatim>\<open>CountAndMakeRun\<close>: the run at the front, made ascending, and what follows it.\<close>

fun CountAndMakeRun :: "('a \<Rightarrow> 'a \<Rightarrow> number) \<Rightarrow> 'a list \<Rightarrow> 'a list \<times> 'a list" where
  "CountAndMakeRun cmp [] = ([], [])"
| "CountAndMakeRun cmp [x] = ([x], [])"
| "CountAndMakeRun cmp (x0 # x1 # rest) =
     (let isDescending = cmp_lt0 (cmp x1 x0);
          runLength = 2 + run_tail cmp isDescending x1 rest;
          run = take runLength (x0 # x1 # rest)
      in (if isDescending then rev run else run, drop runLength (x0 # x1 # rest)))"

text \<open>The binary search of \<^verbatim>\<open>BinaryInsertionSort\<close> for the place of \<open>pivot\<close> in \<open>xs\<close>.\<close>

function binary_search :: "('a \<Rightarrow> 'a \<Rightarrow> number) \<Rightarrow> 'a \<Rightarrow> 'a list \<Rightarrow> nat \<Rightarrow> nat \<Rightarrow> nat" where
  "binary_search cmp pivot xs left right =
     (if left < right
      then (let mid = left + (right - left) div 2 in
            if cmp_lt0 (cmp pivot (xs ! mid))
            then binary_search cmp pivot xs left mid
            else binary_search cmp pivot xs (mid + 1) right)
      else left)"
  by pat_completeness auto
termination
  by (relation "measure (\<lambda>(cmp, pivot, xs, left, right). right - left)") auto

text \<open>\<^verbatim>\<open>BinaryInsertionSort\<close>: the elements of \<open>extra\<close> are inserted into the run one by one.\<close>

definition BinaryInsertionSort :: "('a \<Rightarrow> 'a \<Rightarrow> number) \<Rightarrow> 'a list \<Rightarrow> 'a list \<Rightarrow> 'a list" where
  "BinaryInsertionSort cmp run extra =
     foldl (\<lambda>sorted_part pivot.
              (let left = binary_search cmp pivot sorted_part 0 (length sorted_part)
               in take left sorted_part @ pivot # drop left sorted_part))
       run extra"

text \<open>\<^verbatim>\<open>ComputeMinRunLength\<close>: the length itself below 64, between 32 and 64 from there on.\<close>

function minrun_loop :: "nat \<Rightarrow> nat \<Rightarrow> nat" where
  "minrun_loop n r =
     (if 64 \<le> n then minrun_loop (n div 2) (if n mod 2 = 1 then 1 else r) else n + r)"
  by pat_completeness auto
termination
  by (relation "measure (\<lambda>(n, r). n)") auto

declare binary_search.simps [simp del] minrun_loop.simps [simp del]

definition ComputeMinRunLength :: "nat \<Rightarrow> nat" where
  "ComputeMinRunLength n = minrun_loop n 0"

text \<open>The runs of the main loop of \<^verbatim>\<open>ArrayTimSortImpl\<close>, in order.\<close>

function sorted_runs :: "('a \<Rightarrow> 'a \<Rightarrow> number) \<Rightarrow> nat \<Rightarrow> 'a list \<Rightarrow> 'a list list" where
  "sorted_runs cmp minRunLength xs =
     (if xs = [] then []
      else
        (let made = CountAndMakeRun cmp xs;
             run = fst made;
             rest = snd made
         in if length run < minRunLength
            then (let forcedRunLength = min minRunLength (length xs);
                      extra = take (forcedRunLength - length run) rest
                  in BinaryInsertionSort cmp run extra
                       # sorted_runs cmp minRunLength (drop (forcedRunLength - length run) rest))
            else run # sorted_runs cmp minRunLength rest))"
  by pat_completeness auto
termination
proof -
  have shorter: "length (drop k (snd (CountAndMakeRun cmp xs))) < length xs"
    if "xs \<noteq> []" for cmp :: "'a \<Rightarrow> 'a \<Rightarrow> number" and xs :: "'a list" and k
  proof -
    from that have "length (snd (CountAndMakeRun cmp xs)) < length xs"
      by (cases "(cmp, xs)" rule: CountAndMakeRun.cases) (simp_all add: Let_def)
    then show ?thesis by simp
  qed
  show ?thesis
    by (relation "measure (\<lambda>(cmp, minRunLength, xs). length xs)")
       (use shorter [where k = 0] shorter in auto)
qed

declare sorted_runs.simps [simp del]

text \<open>
  An array shorter than 64 is one run, and sorting ends there. A longer array has several
  runs, which the engine merges pairwise, in an order chosen from their lengths and
  skipping ahead through stretches that are already in place. The model merges the runs
  from left to right with the plain stable merge; this is the same array whenever the
  comparator is consistent, and it is not claimed to be the engine's array for 64 elements
  or more under a comparator that returns \<^verbatim>\<open>NaN\<close>.
\<close>

fun merge_runs :: "('a \<Rightarrow> 'a \<Rightarrow> number) \<Rightarrow> 'a list \<Rightarrow> 'a list \<Rightarrow> 'a list" where
  "merge_runs cmp [] bs = bs"
| "merge_runs cmp as [] = as"
| "merge_runs cmp (a # as) (b # bs) =
     (if cmp_lt0 (cmp b a) then b # merge_runs cmp (a # as) bs
      else a # merge_runs cmp as (b # bs))"

definition array_sort :: "('a \<Rightarrow> 'a \<Rightarrow> number) \<Rightarrow> 'a list \<Rightarrow> 'a list" where
  "array_sort cmp xs =
     (if length xs < 2 then xs
      else (case sorted_runs cmp (ComputeMinRunLength (length xs)) xs of
              [] \<Rightarrow> []
            | run # runs \<Rightarrow> foldl (merge_runs cmp) run runs))"


section \<open>Recomputing from history\<close>

text \<open>The comparator of lines 76-80.\<close>

definition compare_timestamps :: "date_parse \<Rightarrow> reading \<Rightarrow> reading \<Rightarrow> number" where
  "compare_timestamps dp a b =
     (let ta = getTime dp (timestamp a);
          tb = getTime dp (timestamp b)
      in num_sub ta tb)"

text \<open>The body of the loop of \<^verbatim>\<open>recomputeStats\<close>, lines 83-98.\<close>

definition recompute_body :: "date_parse \<Rightarrow> stats \<Rightarrow> reading \<Rightarrow> stats" where
  "recompute_body dp nextStats r =
     (let tsMs = getTime dp (timestamp r) in
      if tsMs = None then nextStats
      else
        let online = computeOnline r;
            counted =
              (case last_status nextStats of
                 None \<Rightarrow> nextStats
               | Some was_online \<Rightarrow>
                  if \<not> truthy (last_timestamp nextStats) then nextStats
                  else
                    let lastMs = getTime dp (last_timestamp nextStats);
                        delta = Math_max0 (num_sub tsMs lastMs)
                    in if was_online
                       then nextStats\<lparr>total_online_ms := num_add (total_online_ms nextStats) delta\<rparr>
                       else nextStats\<lparr>total_offline_ms := num_add (total_offline_ms nextStats) delta\<rparr>)
        in counted\<lparr>last_status := Some online, last_timestamp := timestamp r\<rparr>)"

text \<open>\<^verbatim>\<open>recomputeStats\<close>, lines 74-102.\<close>

definition recomputeStats :: "date_parse \<Rightarrow> reading list \<Rightarrow> stats" where
  "recomputeStats dp readings =
     (let sorted_readings = array_sort (compare_timestamps dp) readings
      in foldl (recompute_body dp) resetStats sorted_readings)"



section \<open>Appending a reading\<close>

text \<open>
  What one call of \<^verbatim>\<open>appendReading\<close> takes from outside the program: the clock at line 215
  (already as the string \<^verbatim>\<open>toISOString\<close> returns), whether the append to the readings log
  succeeds, the clock at line 41, and whether the append to the segment log succeeds.
\<close>

record io =
  clock :: jsstring
  log_append_ok :: bool
  snapshot_clock :: jsstring
  stats_append_ok :: bool

datatype io_error = LogAppendFailed | StatsAppendFailed

text \<open>
  What one call leaves behind: the stamped reading it returns or the error it throws, the
  statistics, the objects whose serialisation was appended to the readings log, and the
  entries appended to the segment log.
\<close>

record append_result =
  returned :: "io_error + reading"
  stats_after :: stats
  log_appended :: "reading list"
  segments_appended :: "segment list"

text \<open>\<^verbatim>\<open>appendStatsSegment\<close>, lines 34-49: the entry it builds.\<close>

definition appendStatsSegment :: "jsstring \<Rightarrow> jsstring \<Rightarrow> jsval \<Rightarrow> jsval \<Rightarrow> number \<Rightarrow> segment" where
  "appendStatsSegment snap st_name start_ts end_ts dur =
     \<lparr>snapshot_at = JStr snap, status = st_name, start_at = start_ts, end_at = end_ts,
      duration_ms = dur, duration_hms = formatMs dur\<rparr>"

text \<open>
  \<^verbatim>\<open>appendReading\<close>, lines 212-246, run from its call to its return with no other code in
  between. A failed append to the readings log throws before the statistics are touched; a
  failed append to the segment log throws after the total has been increased and before
  the last status and timestamp are assigned.
\<close>

definition appendReading :: "date_parse \<Rightarrow> io \<Rightarrow> reading \<Rightarrow> stats \<Rightarrow> append_result" where
  "appendReading dp env r st =
     (let stamped = r\<lparr>timestamp := JStr (clock env)\<rparr> in
      if \<not> log_append_ok env
      then \<lparr>returned = Inl LogAppendFailed, stats_after = st,
            log_appended = [], segments_appended = []\<rparr>
      else
        let nowMs = getTime dp (timestamp stamped);
            online = computeOnline stamped;
            finish = (\<lambda>s segs.
              \<lparr>returned = Inr stamped,
               stats_after = s\<lparr>last_status := Some online, last_timestamp := timestamp stamped\<rparr>,
               log_appended = [stamped], segments_appended = segs\<rparr>)
        in
        (case last_status st of
           None \<Rightarrow> finish st []
         | Some was_online \<Rightarrow>
            if \<not> truthy (last_timestamp st) then finish st []
            else
              let lastMs = getTime dp (last_timestamp st);
                  delta = Math_max0 (num_sub nowMs lastMs);
                  counted =
                    (if was_online
                     then st\<lparr>total_online_ms := num_add (total_online_ms st) delta\<rparr>
                     else st\<lparr>total_offline_ms := num_add (total_offline_ms st) delta\<rparr>)
              in
              if online \<noteq> was_online \<and> num_gt0 delta
              then
                if stats_append_ok env
                then finish counted
                  [appendStatsSegment (snapshot_clock env)
                     (if was_online then js ''online'' else js ''offline'')
                     (last_timestamp st) (timestamp stamped) delta]
                else \<lparr>returned = Inl StatsAppendFailed, stats_after = counted,
                      log_appended = [stamped], segments_appended = []\<rparr>
              else finish counted []))"

text \<open>A run of calls, each with what it takes from outside; the statistics are threaded.\<close>

definition appendReadings :: "date_parse \<Rightarrow> stats \<Rightarrow> (io \<times> reading) list \<Rightarrow> stats" where
  "appendReadings dp st calls =
     foldl (\<lambda>s call. stats_after (appendReading dp (fst call) (snd call) s)) st calls"

definition stamped_reading :: "io \<times> reading \<Rightarrow> reading" where
  "stamped_reading call = (snd call)\<lparr>timestamp := JStr (clock (fst call))\<rparr>"

text \<open>
  A sequence of readings is chronological when every reading is at or before every later
  one, by parsed time; it is parseable when every timestamp parses.
\<close>

definition time_le :: "date_parse \<Rightarrow> reading \<Rightarrow> reading \<Rightarrow> bool" where
  "time_le dp a b =
     (case getTime dp (timestamp a) of
        None \<Rightarrow> False
      | Some x \<Rightarrow> (case getTime dp (timestamp b) of None \<Rightarrow> False | Some y \<Rightarrow> x \<le> y))"

definition chronological :: "date_parse \<Rightarrow> reading list \<Rightarrow> bool" where
  "chronological dp rs = sorted_wrt (time_le dp) rs"

definition parseable :: "date_parse \<Rightarrow> reading list \<Rightarrow> bool" where
  "parseable dp rs = list_all (\<lambda>r. getTime dp (timestamp r) \<noteq> None) rs"

text \<open>Every call of the run completes: both appends succeed.\<close>

definition calls_succeed :: "(io \<times> reading) list \<Rightarrow> bool" where
  "calls_succeed calls = list_all (\<lambda>c. log_append_ok (fst c) \<and> stats_append_ok (fst c)) calls"

text \<open>
  Statistics whose totals are numbers and whose last timestamp has a time: what the program
  holds as long as the clock strings it stamps parse.
\<close>

definition well_formed :: "date_parse \<Rightarrow> stats \<Rightarrow> bool" where
  "well_formed dp st =
     (total_online_ms st \<noteq> None \<and> total_offline_ms st \<noteq> None \<and>
      getTime dp (last_timestamp st) \<noteq> None)"


section \<open>Calls that overlap\<close>

text \<open>
  \<^verbatim>\<open>appendReading\<close> is an \<^verbatim>\<open>async\<close> function: it gives way to other code at its two
  \<^verbatim>\<open>await\<close>s and nowhere else. A call is therefore at most three uninterrupted parts. The
  first stamps the reading and starts the append to the readings log (lines 213-217). The
  second, when that append is done, computes the delta, adds it to a total and, on a
  change of status, builds the segment and starts its append (lines 219-238); without a
  change of status it runs on to the return. The third, when the segment is written,
  assigns the last status and timestamp and returns (lines 242-245).
\<close>

datatype call_state =
    AtLogAppend io reading
  | AtSegmentAppend io reading bool segment
  | Returned "io_error + reading"

text \<open>The first part: the call itself, up to the first \<^verbatim>\<open>await\<close>.\<close>

definition call_appendReading :: "io \<Rightarrow> reading \<Rightarrow> call_state" where
  "call_appendReading env r = AtLogAppend env (r\<lparr>timestamp := JStr (clock env)\<rparr>)"

text \<open>
  What a suspended call does when it is resumed, on the statistics it finds: where it gets
  to, the statistics it leaves, and what has been appended to the two logs for it.
\<close>

record resumed =
  call_next :: call_state
  stats_left :: stats
  log_written :: "reading list"
  segments_written :: "segment list"

fun resume :: "date_parse \<Rightarrow> call_state \<Rightarrow> stats \<Rightarrow> resumed" where
  "resume dp (AtLogAppend env stamped) st =
     (if \<not> log_append_ok env
      then \<lparr>call_next = Returned (Inl LogAppendFailed), stats_left = st,
            log_written = [], segments_written = []\<rparr>
      else
        let nowMs = getTime dp (timestamp stamped);
            online = computeOnline stamped;
            finish = (\<lambda>s.
              \<lparr>call_next = Returned (Inr stamped),
               stats_left = s\<lparr>last_status := Some online, last_timestamp := timestamp stamped\<rparr>,
               log_written = [stamped], segments_written = []\<rparr>)
        in
        (case last_status st of
           None \<Rightarrow> finish st
         | Some was_online \<Rightarrow>
            if \<not> truthy (last_timestamp st) then finish st
            else
              let lastMs = getTime dp (last_timestamp st);
                  delta = Math_max0 (num_sub nowMs lastMs);
                  counted =
                    (if was_online
                     then st\<lparr>total_online_ms := num_add (total_online_ms st) delta\<rparr>
                     else st\<lparr>total_offline_ms := num_add (total_offline_ms st) delta\<rparr>)
              in
              if online \<noteq> was_online \<and> num_gt0 delta
              then \<lparr>call_next = AtSegmentAppend env stamped online
                      (appendStatsSegment (snapshot_clock env)
                         (if was_online then js ''online'' else js ''offline'')
                         (last_timestamp st) (timestamp stamped) delta),
                    stats_left = counted, log_written = [stamped], segments_written = []\<rparr>
              else finish counted))"
| "resume dp (AtSegmentAppend env stamped online seg) st =
     (if stats_append_ok env
      then \<lparr>call_next = Returned (Inr stamped),
            stats_left = st\<lparr>last_status := Some online, last_timestamp := timestamp stamped\<rparr>,
            log_written = [], segments_written = [seg]\<rparr>
      else \<lparr>call_next = Returned (Inl StatsAppendFailed), stats_left = st,
            log_written = [], segments_written = []\<rparr>)"
| "resume dp (Returned res) st =
     \<lparr>call_next = Returned res, stats_left = st, log_written = [], segments_written = []\<rparr>"

text \<open>
  Two calls \<open>a\<close> and \<open>b\<close>, made in this order, whose appends complete in the order they were
  started: \<open>a\<close> is resumed after its log append and starts its segment append, \<open>b\<close> is
  resumed after its log append while \<open>a\<close> waits, then \<open>a\<close> is resumed after its segment
  append and then \<open>b\<close> after its own. The statistics at the end and the segments in the
  order they were written.
\<close>

definition overlapped :: "date_parse \<Rightarrow> io \<times> reading \<Rightarrow> io \<times> reading \<Rightarrow> stats \<Rightarrow> stats \<times> segment list" where
  "overlapped dp a b st =
     (let a1 = resume dp (call_appendReading (fst a) (snd a)) st;
          b1 = resume dp (call_appendReading (fst b) (snd b)) (stats_left a1);
          a2 = resume dp (call_next a1) (stats_left b1);
          b2 = resume dp (call_next b1) (stats_left a2)
      in (stats_left b2,
          segments_written a1 @ segments_written b1 @ segments_written a2 @ segments_written b2))"

text \<open>The same two calls one after the other, each run to its return.\<close>

definition one_after_the_other :: "date_parse \<Rightarrow> io \<times> reading \<Rightarrow> io \<times> reading \<Rightarrow> stats \<Rightarrow> stats \<times> segment list" where
  "one_after_the_other dp a b st =
     (let ra = appendReading dp (fst a) (snd a) st;
          rb = appendReading dp (fst b) (snd b) (stats_after ra)
      in (stats_after rb, segments_appended ra @ segments_appended rb))"


section \<open>Pruning the logs\<close>

text \<open>
  \<^verbatim>\<open>RETENTION_DAYS\<close> and \<^verbatim>\<open>RETENTION_MS\<close>, lines 10-14. The argument is the environment
  variable read as a number, \<open>None\<close> when it is not a finite number.
\<close>

definition RETENTION_DAYS :: "real option \<Rightarrow> real" where
  "RETENTION_DAYS parsed = (case parsed of None \<Rightarrow> 7 | Some d \<Rightarrow> if d > 0 then d else 7)"

definition RETENTION_MS :: "real option \<Rightarrow> real" where
  "RETENTION_MS parsed = RETENTION_DAYS parsed * 24 * 60 * 60 * 1000"

text \<open>\<^verbatim>\<open>raw.split("\n")\<close> and \<^verbatim>\<open>lines.join("\n")\<close>.\<close>

fun split_nl :: "string \<Rightarrow> string list" where
  "split_nl [] = [[]]"
| "split_nl (c # cs) =
     (if c = CHR 0x0A then [] # split_nl cs
      else (case split_nl cs of [] \<Rightarrow> [[c]] | l # ls \<Rightarrow> (c # l) # ls))"

fun join_nl :: "string list \<Rightarrow> string" where
  "join_nl [] = []"
| "join_nl [l] = l"
| "join_nl (l # ls) = l @ CHR 0x0A # join_nl ls"

text \<open>
  The lines of a log file as both pruners read them (lines 107-112 and 141-146): a file
  that cannot be read has no lines, and empty lines are filtered out. \<open>None\<close> is the read
  that throws.
\<close>

definition read_lines :: "string option \<Rightarrow> string list" where
  "read_lines raw = (case raw of None \<Rightarrow> [] | Some text \<Rightarrow> filter (\<lambda>l. l \<noteq> []) (split_nl text))"

text \<open>
  \<^verbatim>\<open>JSON.parse\<close> and \<^verbatim>\<open>JSON.stringify\<close> are parameters of both pruners. \<open>parse line\<close> is the
  object \<^verbatim>\<open>JSON.parse\<close> returns for the line, read as a record of the log, and \<open>None\<close> where
  the body of the \<^verbatim>\<open>try\<close> throws. A pruner leaves behind the records it kept, the text it
  wrote to the file or the error of the write, and the statistics.
\<close>

datatype write_error = WriteFailed

record 'a prune_result =
  kept_records :: "'a list"
  written :: "write_error + string"
  stats_next :: stats

text \<open>The loop of lines 148-159: the readings of the log that are kept.\<close>

definition kept_readings ::
  "date_parse \<Rightarrow> (string \<Rightarrow> reading option) \<Rightarrow> real \<Rightarrow> string list \<Rightarrow> reading list" where
  "kept_readings dp parse cutoff lines =
     concat (map (\<lambda>line.
       (case parse line of
          None \<Rightarrow> []
        | Some obj \<Rightarrow>
           (case getTime dp (timestamp obj) of
              None \<Rightarrow> []
            | Some tsMs \<Rightarrow> if cutoff \<le> of_int tsMs then [obj] else []))) lines)"

text \<open>
  \<^verbatim>\<open>pruneOldReadings\<close>, lines 137-170. \<open>now\<close> is \<^verbatim>\<open>Date.now()\<close>, \<open>retention_ms\<close> the constant
  \<^verbatim>\<open>RETENTION_MS\<close>, \<open>raw\<close> the content of the readings log, \<open>write_ok\<close> whether the rewrite
  succeeds; a rewrite that fails throws before the statistics are assigned.
\<close>

definition pruneOldReadings ::
  "date_parse \<Rightarrow> (string \<Rightarrow> reading option) \<Rightarrow> (reading \<Rightarrow> string) \<Rightarrow>
   int \<Rightarrow> real \<Rightarrow> string option \<Rightarrow> bool \<Rightarrow> stats \<Rightarrow> reading prune_result" where
  "pruneOldReadings dp parse stringify now retention_ms raw write_ok st =
     (let cutoff = of_int now - retention_ms;
          lines = read_lines raw;
          kept = kept_readings dp parse cutoff lines
      in if length kept = 0
         then (if write_ok
               then \<lparr>kept_records = kept, written = Inr [], stats_next = resetStats\<rparr>
               else \<lparr>kept_records = kept, written = Inl WriteFailed, stats_next = st\<rparr>)
         else
           let payload = join_nl (map stringify kept) @ [CHR 0x0A]
           in if write_ok
              then \<lparr>kept_records = kept, written = Inr payload, stats_next = recomputeStats dp kept\<rparr>
              else \<lparr>kept_records = kept, written = Inl WriteFailed, stats_next = st\<rparr>)"

text \<open>The loop of lines 114-126: the segments of the log that are kept.\<close>

definition kept_segments ::
  "date_parse \<Rightarrow> (string \<Rightarrow> segment option) \<Rightarrow> real \<Rightarrow> string list \<Rightarrow> segment list" where
  "kept_segments dp parse cutoff lines =
     concat (map (\<lambda>line.
       (case parse line of
          None \<Rightarrow> []
        | Some obj \<Rightarrow>
           (let ts = snapshot_at obj;
                tsMs = (if truthy ts then getTime dp ts else None)
            in case tsMs of
                 None \<Rightarrow> []
               | Some t \<Rightarrow> if cutoff \<le> of_int t then [obj] else []))) lines)"

text \<open>\<^verbatim>\<open>pruneOldStatsLog\<close>, lines 104-135. It does not touch the statistics.\<close>

definition pruneOldStatsLog ::
  "date_parse \<Rightarrow> (string \<Rightarrow> segment option) \<Rightarrow> (segment \<Rightarrow> string) \<Rightarrow>
   int \<Rightarrow> real \<Rightarrow> string option \<Rightarrow> bool \<Rightarrow> stats \<Rightarrow> segment prune_result" where
  "pruneOldStatsLog dp parse stringify now retention_ms raw write_ok st =
     (let cutoff = of_int now - retention_ms;
          lines = read_lines raw;
          kept = kept_segments dp parse cutoff lines
      in if length kept = 0
         then \<lparr>kept_records = kept, written = (if write_ok then Inr [] else Inl WriteFailed),
               stats_next = st\<rparr>
         else
           let payload = join_nl (map stringify kept) @ [CHR 0x0A]
           in \<lparr>kept_records = kept, written = (if write_ok then Inr payload else Inl WriteFailed),
               stats_next = st\<rparr>)"

text \<open>
  The records of a log: what \<^verbatim>\<open>JSON.parse\<close> makes of its lines, malformed lines left out.
\<close>

definition records_of :: "(string \<Rightarrow> 'a option) \<Rightarrow> string option \<Rightarrow> 'a list" where
  "records_of parse raw = List.map_filter parse (read_lines raw)"

text \<open>
  The tests of lines 153 and 119-120: the timestamp has a time at or after the cutoff; for
  a segment it must also be a value that counts as true.
\<close>

definition on_or_after :: "date_parse \<Rightarrow> real \<Rightarrow> jsval \<Rightarrow> bool" where
  "on_or_after dp cutoff ts =
     (case getTime dp ts of None \<Rightarrow> False | Some t \<Rightarrow> cutoff \<le> of_int t)"

definition reading_retained :: "date_parse \<Rightarrow> real \<Rightarrow> reading \<Rightarrow> bool" where
  "reading_retained dp cutoff r = on_or_after dp cutoff (timestamp r)"

definition segment_retained :: "date_parse \<Rightarrow> real \<Rightarrow> segment \<Rightarrow> bool" where
  "segment_retained dp cutoff s = (truthy (snapshot_at s) \<and> on_or_after dp cutoff (snapshot_at s))"

text \<open>The text both pruners write for a list of kept records.\<close>

definition payload_of :: "('a \<Rightarrow> string) \<Rightarrow> 'a list \<Rightarrow> string" where
  "payload_of stringify kept =
     (if kept = [] then [] else join_nl (map stringify kept) @ [CHR 0x0A])"

text \<open>
  What \<^verbatim>\<open>JSON.stringify\<close> and \<^verbatim>\<open>JSON.parse\<close> do with a record that is written and read
  again: the serialisation is one non-empty line, and it parses to a record that is
  serialised the same way and passes the same test of retention. The record read again
  need not be the record written: a number that is not finite is written as \<^verbatim>\<open>null\<close>.
\<close>

definition reads_back :: "(string \<Rightarrow> 'a option) \<Rightarrow> ('a \<Rightarrow> string) \<Rightarrow> ('a \<Rightarrow> bool) \<Rightarrow> 'a \<Rightarrow> bool" where
  "reads_back parse stringify retained r =
     (stringify r \<noteq> [] \<and> CHR 0x0A \<notin> set (stringify r) \<and>
      (case parse (stringify r) of
         None \<Rightarrow> False
       | Some r' \<Rightarrow> stringify r' = stringify r \<and> retained r'))"


section \<open>Reachable statistics\<close>

text \<open>
  The values the module-level \<^verbatim>\<open>stats\<close> can take: its initial value, and what
  \<^verbatim>\<open>appendReading\<close>, an assignment of \<^verbatim>\<open>recomputeStats(readings)\<close> (line 195), a run of
  \<^verbatim>\<open>pruneOldReadings\<close> and an assignment of \<^verbatim>\<open>resetStats()\<close> (line 191) make of it, whatever
  the payloads, the clock, the log contents and the outcomes of the file operations are.
\<close>

inductive reachable :: "date_parse \<Rightarrow> stats \<Rightarrow> bool" for dp :: date_parse where
  reach_initial: "reachable dp initial_stats"
| reach_append: "reachable dp st \<Longrightarrow> reachable dp (stats_after (appendReading dp env r st))"
| reach_recompute: "reachable dp st \<Longrightarrow> reachable dp (recomputeStats dp readings)"
| reach_prune: "reachable dp st \<Longrightarrow>
     reachable dp (stats_next (pruneOldReadings dp parse stringify now retention_ms raw write_ok st))"
| reach_reset: "reachable dp st \<Longrightarrow> reachable dp resetStats"

text \<open>Both fields of the last observation are set, or neither is.\<close>

definition paired :: "stats \<Rightarrow> bool" where
  "paired st = ((last_status st = None) = (last_timestamp st = JNull))"


section \<open>The frame extractor\<close>

text \<open>\<^verbatim>\<open>buffer.indexOf("{")\<close>, with \<open>None\<close> for \<open>-1\<close>.\<close>

fun indexOf :: "char \<Rightarrow> string \<Rightarrow> nat option" where
  "indexOf c [] = None"
| "indexOf c (x # xs) = (if x = c then Some 0 else map_option Suc (indexOf c xs))"

text \<open>
  The scan of lines 295-305 from position \<open>i\<close> with the depth reached so far; \<open>None\<close> is
  \<open>end = -1\<close>.
\<close>

fun find_end :: "string \<Rightarrow> nat \<Rightarrow> int \<Rightarrow> nat option" where
  "find_end [] i depth = None"
| "find_end (ch # rest) i depth =
     (let d1 = (if ch = CHR ''{'' then depth + 1 else depth);
          d2 = (if ch = CHR ''}'' then d1 - 1 else d1)
      in if d2 = 0 \<and> ch = CHR ''}'' then Some i else find_end rest (i + 1) d2)"

text \<open>
  The loop of \<^verbatim>\<open>flushBuffer\<close>, lines 286-320: the candidates it cuts from the buffer, in
  order, and the buffer it leaves. Each candidate is then handed to \<^verbatim>\<open>JSON.parse\<close> and, when
  that succeeds, to \<^verbatim>\<open>appendReading\<close>; neither changes the buffer.
\<close>

function flushBuffer :: "string \<Rightarrow> string list \<times> string" where
  "flushBuffer buffer =
     (case indexOf CHR ''{'' buffer of
        None \<Rightarrow> ([], [])
      | Some start \<Rightarrow>
         (let buffer1 = (if start > 0 then drop start buffer else buffer)
          in case find_end buffer1 0 0 of
               None \<Rightarrow> ([], buffer1)
             | Some e \<Rightarrow>
                (let candidate = take (e + 1) buffer1;
                     buffer2 = drop (e + 1) buffer1;
                     more = flushBuffer buffer2
                 in (candidate # fst more, snd more))))"
  by pat_completeness auto
termination
proof (relation "measure length")
  show "wf (measure length)" by simp
next
  fix buffer :: string and start buffer1 e candidate buffer2
  assume b1: "buffer1 = (if 0 < start then drop start buffer else buffer)"
    and fe: "find_end buffer1 0 0 = Some e"
    and b2: "buffer2 = drop (e + 1) buffer1"
  have bound: "find_end s i d = Some k \<Longrightarrow> k < i + length s" for s i d k
  proof (induction s arbitrary: i d)
    case Nil
    then show ?case by simp
  next
    case (Cons ch rest)
    from Cons.prems have "k = i \<or> (\<exists>d'. find_end rest (i + 1) d' = Some k)"
      by (auto simp: Let_def split: if_splits)
    then show ?case
    proof
      assume "k = i"
      then show ?thesis by simp
    next
      assume "\<exists>d'. find_end rest (i + 1) d' = Some k"
      then obtain d' where "find_end rest (i + 1) d' = Some k" ..
      from Cons.IH [OF this] show ?thesis by simp
    qed
  qed
  from bound [OF fe] have "e < length buffer1" by simp
  moreover have "length buffer1 \<le> length buffer" using b1 by simp
  ultimately show "(buffer2, buffer) \<in> measure length" using b2 by simp
qed

text \<open>
  The handler of \<^verbatim>\<open>data\<close> events, lines 322-325, without the calls of \<^verbatim>\<open>appendReading\<close>: the
  chunk is appended to the buffer, and the candidates that \<^verbatim>\<open>JSON.parse\<close> accepts are the
  records handed on, in order.
\<close>

definition on_data :: "(string \<Rightarrow> reading option) \<Rightarrow> string \<Rightarrow> string \<Rightarrow> reading list \<times> string" where
  "on_data parse buffer chunk =
     (let flushed = flushBuffer (buffer @ chunk)
      in (List.map_filter parse (fst flushed), snd flushed))"



section \<open>Sample data\<close>

text \<open>
  Concrete inputs on which the theorems below are exercised: three clock strings with the
  time values the host gives them and a string that is no date; payloads with no timestamp
  of their own; the run of the three readings \<open>0\<close>, \<open>1\<close>, \<open>0\<close> five and ten seconds apart; logs
  with a malformed line, with a number too large for a double, and with a \<^verbatim>\<open>null\<close>
  timestamp; and stand-ins for \<^verbatim>\<open>JSON.parse\<close> and \<^verbatim>\<open>JSON.stringify\<close> that are right on the
  lines used.
\<close>

definition T0 :: jsstring where "T0 = js ''2024-01-01T00:00:00.000Z''"

definition T5 :: jsstring where "T5 = js ''2024-01-01T00:00:05.000Z''"

definition T15 :: jsstring where "T15 = js ''2024-01-01T00:00:15.000Z''"

definition demo_date_parse :: date_parse where
  "demo_date_parse v =
     (if v = JStr T0 then Some 1704067200000
      else if v = JStr T5 then Some 1704067205000
      else if v = JStr T15 then Some 1704067215000
      else None)"

definition demo_io :: "jsstring \<Rightarrow> io" where
  "demo_io t = \<lparr>clock = t, log_append_ok = True, snapshot_clock = t, stats_append_ok = True\<rparr>"

definition demo_payload :: "real \<Rightarrow> reading" where
  "demo_payload p = \<lparr>power = JNum (NumFin p), timestamp = JUndefined, other = []\<rparr>"

definition demo_calls :: "(io \<times> reading) list" where
  "demo_calls =
     [(demo_io T0, demo_payload 0), (demo_io T5, demo_payload 1), (demo_io T15, demo_payload 0)]"

definition demo_reading :: "jsval \<Rightarrow> jsval \<Rightarrow> reading" where
  "demo_reading p t = \<lparr>power = p, timestamp = t, other = []\<rparr>"

text \<open>Online at fifteen seconds, a timestamp that is no date, offline at five seconds.\<close>

definition demo_unsorted :: "reading list" where
  "demo_unsorted =
     [demo_reading (JBool True) (JStr T15),
      demo_reading (JBool False) (JStr (js ''garbage'')),
      demo_reading (JBool False) (JStr T5)]"

definition demo_sorted :: "reading list" where
  "demo_sorted =
     [demo_reading (JBool False) (JStr T5),
      demo_reading (JBool True) (JStr T15),
      demo_reading (JBool False) (JStr (js ''garbage''))]"

definition demo_parse_reading :: "string \<Rightarrow> reading option" where
  "demo_parse_reading line =
     (if line = ''{\"power\":0,\"timestamp\":\"2024-01-01T00:00:00.000Z\"}''
      then Some (demo_reading (JNum (NumFin 0)) (JStr T0))
      else if line = ''{\"power\":1,\"timestamp\":\"2024-01-01T00:00:05.000Z\"}''
      then Some (demo_reading (JNum (NumFin 1)) (JStr T5))
      else if line = ''{\"power\":1e999,\"timestamp\":\"2024-01-01T00:00:05.000Z\"}''
      then Some (demo_reading (JNum (NumInf True)) (JStr T5))
      else if line = ''{\"power\":null,\"timestamp\":\"2024-01-01T00:00:05.000Z\"}''
      then Some (demo_reading JNull (JStr T5))
      else if line = ''{\"power\":1,\"timestamp\":null}''
      then Some (demo_reading (JNum (NumFin 1)) JNull)
      else None)"

definition demo_stringify_reading :: "reading \<Rightarrow> string" where
  "demo_stringify_reading r =
     (if r = demo_reading (JNum (NumFin 0)) (JStr T0)
      then ''{\"power\":0,\"timestamp\":\"2024-01-01T00:00:00.000Z\"}''
      else if r = demo_reading (JNum (NumFin 1)) (JStr T5)
      then ''{\"power\":1,\"timestamp\":\"2024-01-01T00:00:05.000Z\"}''
      else if r = demo_reading (JNum (NumInf True)) (JStr T5)
      then ''{\"power\":null,\"timestamp\":\"2024-01-01T00:00:05.000Z\"}''
      else if r = demo_reading JNull (JStr T5)
      then ''{\"power\":null,\"timestamp\":\"2024-01-01T00:00:05.000Z\"}''
      else if r = demo_reading (JNum (NumFin 1)) JNull
      then ''{\"power\":1,\"timestamp\":null}''
      else ''{}'')"

definition demo_log :: string where
  "demo_log =
     ''{\"power\":0,\"timestamp\":\"2024-01-01T00:00:00.000Z\"}'' @ [CHR 0x0A] @
     ''not json'' @ [CHR 0x0A] @
     ''{\"power\":1,\"timestamp\":\"2024-01-01T00:00:05.000Z\"}'' @ [CHR 0x0A]"

definition demo_log_overflow :: string where
  "demo_log_overflow =
     ''{\"power\":1e999,\"timestamp\":\"2024-01-01T00:00:05.000Z\"}'' @ [CHR 0x0A]"

definition demo_log_null :: string where
  "demo_log_null = ''{\"power\":1,\"timestamp\":null}'' @ [CHR 0x0A]"

definition demo_segment :: segment where
  "demo_segment =
     \<lparr>snapshot_at = JStr T5, status = js ''offline'', start_at = JStr T0, end_at = JStr T5,
      duration_ms = Some 5000, duration_hms = js ''00:00:05''\<rparr>"

definition demo_segment_line :: string where
  "demo_segment_line =
     ''{\"snapshot_at\":\"2024-01-01T00:00:05.000Z\",\"status\":\"offline\",'' @
     ''\"start_at\":\"2024-01-01T00:00:00.000Z\",\"end_at\":\"2024-01-01T00:00:05.000Z\",'' @
     ''\"duration_ms\":5000,\"duration_hms\":\"00:00:05\"}''"

definition demo_parse_segment :: "string \<Rightarrow> segment option" where
  "demo_parse_segment line = (if line = demo_segment_line then Some demo_segment else None)"

definition demo_stringify_segment :: "segment \<Rightarrow> string" where
  "demo_stringify_segment s = (if s = demo_segment then demo_segment_line else ''{}'')"

definition demo_now :: int where
  "demo_now = 1704672002000"

definition demo_stats :: stats where
  "demo_stats =
     \<lparr>total_online_ms = Some 0, total_offline_ms = Some 0,
      last_status = Some False, last_timestamp = JStr T0\<rparr>"

definition demo_json_parse :: "string \<Rightarrow> reading option" where
  "demo_json_parse s =
     (if s = ''{\"power\":1}'' then Some (demo_payload 1)
      else if s = ''{\"power\":0}'' then Some (demo_payload 0)
      else None)"


section \<open>The status classifier\<close>

lemma lower_unit_cases:
  "lower_unit c = [Ascii a] \<Longrightarrow>
     (0x41 \<le> c \<and> c \<le> 0x5A \<and> a = c + 0x20) \<or> (c < 0x80 \<and> \<not> (0x41 \<le> c \<and> c \<le> 0x5A) \<and> a = c)
     \<or> (c = 0x212A \<and> a = 0x6B)"
  by (auto simp: lower_unit_def split: if_splits)

lemma lower_unit_not_Nil: "lower_unit c \<noteq> []"
  by (simp add: lower_unit_def)

lemma lower_unit_length: "length (lower_unit c) = 1 \<or> lower_unit c = [Ascii 0x69, High]"
  by (simp add: lower_unit_def)

lemma concat_lower_two:
  assumes "toLowerCase t = [Ascii a, Ascii b]"
  shows "\<exists>c d. t = [c, d] \<and> lower_unit c = [Ascii a] \<and> lower_unit d = [Ascii b]"
proof (cases t)
  case Nil
  with assms show ?thesis by (simp add: toLowerCase_def)
next
  case (Cons c t1)
  note t = Cons
  from lower_unit_length [of c] show ?thesis
  proof
    assume "lower_unit c = [Ascii 0x69, High]"
    with assms t show ?thesis by (simp add: toLowerCase_def)
  next
    assume l1: "length (lower_unit c) = 1"
    then obtain x where x: "lower_unit c = [x]" by (cases "lower_unit c") auto
    with assms t have xa: "x = Ascii a" and rest: "toLowerCase t1 = [Ascii b]"
      by (simp_all add: toLowerCase_def)
    show ?thesis
    proof (cases t1)
      case Nil
      with rest show ?thesis by (simp add: toLowerCase_def)
    next
      case (Cons d t2)
      from lower_unit_length [of d] show ?thesis
      proof
        assume "lower_unit d = [Ascii 0x69, High]"
        with rest Cons show ?thesis by (simp add: toLowerCase_def)
      next
        assume "length (lower_unit d) = 1"
        then obtain y where y: "lower_unit d = [y]" by (cases "lower_unit d") auto
        with rest Cons have yb: "y = Ascii b" and e: "toLowerCase t2 = []"
          by (simp_all add: toLowerCase_def)
        from e have "t2 = []"
          by (cases t2) (simp_all add: toLowerCase_def lower_unit_not_Nil)
        with t Cons x xa y yb show ?thesis by simp
      qed
    qed
  qed
qed

lemma lower_o: "lower_unit c = [Ascii 0x6F] \<longleftrightarrow> c = 0x6F \<or> c = 0x4F"
  by (auto simp: lower_unit_def split: if_splits)

lemma lower_n: "lower_unit c = [Ascii 0x6E] \<longleftrightarrow> c = 0x6E \<or> c = 0x4E"
  by (auto simp: lower_unit_def split: if_splits)

lemma js_on: "map Ascii (js ''on'') = [Ascii 0x6F, Ascii 0x6E]"
  by (simp add: js_def)

lemma toLowerCase_on:
  "toLowerCase t = map Ascii (js ''on'') \<longleftrightarrow> t \<in> {js ''on'', js ''On'', js ''oN'', js ''ON''}"
proof
  assume "toLowerCase t = map Ascii (js ''on'')"
  then have "toLowerCase t = [Ascii 0x6F, Ascii 0x6E]" by (simp add: js_on)
  then obtain c d where "t = [c, d]" "lower_unit c = [Ascii 0x6F]" "lower_unit d = [Ascii 0x6E]"
    using concat_lower_two by blast
  then show "t \<in> {js ''on'', js ''On'', js ''oN'', js ''ON''}"
    by (auto simp: lower_o lower_n js_def)
next
  assume "t \<in> {js ''on'', js ''On'', js ''oN'', js ''ON''}"
  then show "toLowerCase t = map Ascii (js ''on'')"
    by (auto simp: js_def toLowerCase_def lower_unit_def)
qed


lemma dropWhile_core:
  assumes "list_all P pre" and "core \<noteq> []" and "\<not> P (hd core)"
  shows "dropWhile P (pre @ core @ post) = core @ post"
proof -
  from assms(1) have "dropWhile P (pre @ core @ post) = dropWhile P (core @ post)"
    by (intro dropWhile_append2) (simp add: list_all_iff)
  also from assms(2,3) have "\<dots> = core @ post"
    by (cases core) simp_all
  finally show ?thesis .
qed

lemma trim_core:
  assumes "list_all is_js_space pre" and "list_all is_js_space post"
    and "core \<noteq> []" and "\<not> is_js_space (hd core)" and "\<not> is_js_space (last core)"
  shows "trim (pre @ core @ post) = core"
proof -
  have front: "dropWhile is_js_space (pre @ core @ post) = core @ post"
    using assms(1,3,4) by (rule dropWhile_core)
  have "dropWhile is_js_space (rev post @ rev core @ []) = rev core @ []"
  proof (rule dropWhile_core)
    show "list_all is_js_space (rev post)" using assms(2) by (simp add: list_all_iff)
    show "rev core \<noteq> []" using assms(3) by simp
    show "\<not> is_js_space (hd (rev core))" using assms(3,5) by (simp add: hd_rev)
  qed
  then have "dropWhile is_js_space (rev (core @ post)) = rev core" by simp
  with front show ?thesis by (simp add: trim_def)
qed

lemma trim_splits:
  "\<exists>pre post. s = pre @ trim s @ post \<and> list_all is_js_space pre \<and> list_all is_js_space post"
proof -
  let ?m = "dropWhile is_js_space s"
  have s: "s = takeWhile is_js_space s @ ?m" by simp
  have "rev (dropWhile is_js_space (rev ?m)) @ rev (takeWhile is_js_space (rev ?m))
      = rev (takeWhile is_js_space (rev ?m) @ dropWhile is_js_space (rev ?m))"
    by (simp only: rev_append)
  also have "\<dots> = ?m"
    by (simp only: takeWhile_dropWhile_id rev_rev_ident)
  finally have m: "?m = trim s @ rev (takeWhile is_js_space (rev ?m))"
    by (simp add: trim_def)
  have a: "list_all is_js_space (takeWhile is_js_space s)"
    by (simp add: list_all_iff) (meson set_takeWhileD)
  have b: "list_all is_js_space (rev (takeWhile is_js_space (rev ?m)))"
    by (simp add: list_all_iff) (meson set_takeWhileD)
  from s m have "s = takeWhile is_js_space s @ trim s @ rev (takeWhile is_js_space (rev ?m))"
    by metis
  with a b show ?thesis by blast
qed

lemma accepted_core:
  assumes "core \<in> {js ''on'', js ''On'', js ''oN'', js ''ON'', js ''1''}"
  shows "core \<noteq> [] \<and> \<not> is_js_space (hd core) \<and> \<not> is_js_space (last core)"
  using assms by (auto simp: js_def is_js_space_def)

lemma string_online:
  "(toLowerCase (trim s) = map Ascii (js ''on'') \<or> trim s = js ''1'') \<longleftrightarrow>
     (\<exists>pre core post. s = pre @ core @ post \<and> list_all is_js_space pre \<and>
        list_all is_js_space post \<and>
        core \<in> {js ''on'', js ''On'', js ''oN'', js ''ON'', js ''1''})"
proof
  assume "toLowerCase (trim s) = map Ascii (js ''on'') \<or> trim s = js ''1''"
  then have "trim s \<in> {js ''on'', js ''On'', js ''oN'', js ''ON'', js ''1''}"
    using toLowerCase_on [of "trim s"] by auto
  with trim_splits [of s] show "\<exists>pre core post. s = pre @ core @ post \<and>
      list_all is_js_space pre \<and> list_all is_js_space post \<and>
      core \<in> {js ''on'', js ''On'', js ''oN'', js ''ON'', js ''1''}"
    by blast
next
  assume "\<exists>pre core post. s = pre @ core @ post \<and> list_all is_js_space pre \<and>
      list_all is_js_space post \<and> core \<in> {js ''on'', js ''On'', js ''oN'', js ''ON'', js ''1''}"
  then obtain pre core post where s: "s = pre @ core @ post"
    and ws: "list_all is_js_space pre" "list_all is_js_space post"
    and core: "core \<in> {js ''on'', js ''On'', js ''oN'', js ''ON'', js ''1''}"
    by blast
  from accepted_core [OF core] ws have "trim s = core"
    unfolding s by (intro trim_core) simp_all
  with core show "toLowerCase (trim s) = map Ascii (js ''on'') \<or> trim s = js ''1''"
    using toLowerCase_on [of core] by auto
qed

text \<open>
  C7. The status classifier is a total function into the booleans. On every value of the
  \<^verbatim>\<open>power\<close> field, a missing field included, it returns: the value itself for a boolean;
  \<open>value \<noteq> 0\<close> for a number; for a string, whether the text between its leading and trailing
  white space is \<^verbatim>\<open>on\<close> in any mix of upper and lower case, or \<^verbatim>\<open>1\<close>; false for every other
  value. The rows of the truth table of the specification come out as written there.
\<close>

theorem computeOnline_rule:
  "computeOnline r =
     (case power r of
        JBool b \<Rightarrow> b
      | JNum n \<Rightarrow> n \<noteq> NumFin 0
      | JStr s \<Rightarrow>
         (\<exists>pre core post. s = pre @ core @ post \<and> list_all is_js_space pre \<and>
            list_all is_js_space post \<and>
            core \<in> {js ''on'', js ''On'', js ''oN'', js ''ON'', js ''1''})
      | _ \<Rightarrow> False)
   \<and> computeOnline (r\<lparr>power := JBool True\<rparr>)
   \<and> \<not> computeOnline (r\<lparr>power := JBool False\<rparr>)
   \<and> \<not> computeOnline (r\<lparr>power := JNum (NumFin 0)\<rparr>)
   \<and> computeOnline (r\<lparr>power := JNum (NumFin 1)\<rparr>)
   \<and> computeOnline (r\<lparr>power := JStr (js ''On'')\<rparr>)
   \<and> computeOnline (r\<lparr>power := JStr (js '' 1 '')\<rparr>)
   \<and> computeOnline (r\<lparr>power := JStr ([0xFEFF, 0x09] @ js ''oN'' @ [0x3000, 0x0A])\<rparr>)
   \<and> \<not> computeOnline (r\<lparr>power := JStr (js ''off'')\<rparr>)
   \<and> \<not> computeOnline (r\<lparr>power := JStr (js ''o n'')\<rparr>)
   \<and> \<not> computeOnline (r\<lparr>power := JNull\<rparr>)
   \<and> \<not> computeOnline (r\<lparr>power := JObj kvs\<rparr>)
   \<and> \<not> computeOnline (r\<lparr>power := JArr vs\<rparr>)
   \<and> \<not> computeOnline (r\<lparr>power := JUndefined\<rparr>)"
proof -
  have rule: "computeOnline r =
     (case power r of
        JBool b \<Rightarrow> b
      | JNum n \<Rightarrow> n \<noteq> NumFin 0
      | JStr s \<Rightarrow>
         (\<exists>pre core post. s = pre @ core @ post \<and> list_all is_js_space pre \<and>
            list_all is_js_space post \<and>
            core \<in> {js ''on'', js ''On'', js ''oN'', js ''ON'', js ''1''})
      | _ \<Rightarrow> False)"
  proof (cases "power r")
    case (JNum n)
    then show ?thesis by (cases n) (simp_all add: computeOnline_def)
  next
    case (JStr s)
    then show ?thesis by (simp add: computeOnline_def string_online)
  qed (simp_all add: computeOnline_def)
  have rows: "computeOnline (r\<lparr>power := JBool True\<rparr>)"
    "\<not> computeOnline (r\<lparr>power := JBool False\<rparr>)"
    "\<not> computeOnline (r\<lparr>power := JNum (NumFin 0)\<rparr>)"
    "computeOnline (r\<lparr>power := JNum (NumFin 1)\<rparr>)"
    "\<not> computeOnline (r\<lparr>power := JNull\<rparr>)"
    "\<not> computeOnline (r\<lparr>power := JObj kvs\<rparr>)"
    "\<not> computeOnline (r\<lparr>power := JArr vs\<rparr>)"
    "\<not> computeOnline (r\<lparr>power := JUndefined\<rparr>)"
    by (simp_all add: computeOnline_def)
  have strings: "computeOnline (r\<lparr>power := JStr (js ''On'')\<rparr>)"
    "computeOnline (r\<lparr>power := JStr (js '' 1 '')\<rparr>)"
    "computeOnline (r\<lparr>power := JStr ([0xFEFF, 0x09] @ js ''oN'' @ [0x3000, 0x0A])\<rparr>)"
    "\<not> computeOnline (r\<lparr>power := JStr (js ''off'')\<rparr>)"
    "\<not> computeOnline (r\<lparr>power := JStr (js ''o n'')\<rparr>)"
    by (simp_all add: computeOnline_def trim_def is_js_space_def js_def toLowerCase_def lower_unit_def)
  from rule rows strings show ?thesis by blast
qed



section \<open>Duration formatting\<close>

lemma formatMs_zero: "formatMs (Some 0) = js ''00:00:00''"
  by (simp add: formatMs_def num_floor_div_def num_rem_def num_toString_def padStart2_def js_def
      Let_def)

lemma formatMs_hour_minute_second: "formatMs (Some 3661000) = js ''01:01:01''"
  by (simp add: formatMs_def num_floor_div_def num_rem_def num_toString_def padStart2_def js_def
      Let_def)

lemma formatMs_NaN: "formatMs None = js ''NaN:NaN:NaN''"
  by (simp add: formatMs_def num_floor_div_def num_rem_def num_toString_def padStart2_def js_def
      Let_def)


section \<open>Sorting readings that are in order\<close>

lemma run_tail_in_order:
  "successively (\<lambda>a b. \<not> cmp_lt0 (cmp b a)) (prev # rest) \<Longrightarrow>
     run_tail cmp False prev rest = length rest"
  by (induction rest arbitrary: prev) (simp_all add: Let_def)

lemma CountAndMakeRun_in_order:
  assumes "successively (\<lambda>a b. \<not> cmp_lt0 (cmp b a)) xs"
  shows "CountAndMakeRun cmp xs = (xs, [])"
proof (cases "(cmp, xs)" rule: CountAndMakeRun.cases)
  case (3 cmp' x0 x1 rest)
  with assms have first: "\<not> cmp_lt0 (cmp x1 x0)"
    and tail: "successively (\<lambda>a b. \<not> cmp_lt0 (cmp b a)) (x1 # rest)"
    by simp_all
  from tail have "run_tail cmp False x1 rest = length rest" by (rule run_tail_in_order)
  with first 3 show ?thesis by (simp add: Let_def)
qed simp_all

lemma sorted_runs_in_order:
  assumes "successively (\<lambda>a b. \<not> cmp_lt0 (cmp b a)) xs" and "xs \<noteq> []"
  shows "sorted_runs cmp m xs = [xs]"
proof -
  have made: "CountAndMakeRun cmp xs = (xs, [])"
    using assms(1) by (rule CountAndMakeRun_in_order)
  have empty: "sorted_runs cmp m [] = []"
    by (subst sorted_runs.simps) simp
  have "sorted_runs cmp m xs =
      (if length xs < m
       then BinaryInsertionSort cmp xs [] # sorted_runs cmp m []
       else xs # sorted_runs cmp m [])"
    by (subst sorted_runs.simps) (simp add: assms(2) made Let_def)
  then show ?thesis
    by (simp add: empty BinaryInsertionSort_def)
qed

lemma array_sort_in_order:
  assumes "successively (\<lambda>a b. \<not> cmp_lt0 (cmp b a)) xs"
  shows "array_sort cmp xs = xs"
proof (cases "length xs < 2")
  case True
  then show ?thesis by (simp add: array_sort_def)
next
  case False
  then have "xs \<noteq> []" by auto
  with assms have "sorted_runs cmp (ComputeMinRunLength (length xs)) xs = [xs]"
    by (rule sorted_runs_in_order)
  with False show ?thesis by (simp add: array_sort_def)
qed


section \<open>Replay equivalence\<close>

lemma time_le_cmp: "time_le dp a b \<Longrightarrow> \<not> cmp_lt0 (compare_timestamps dp b a)"
  by (auto simp: time_le_def cmp_lt0_def compare_timestamps_def num_sub_def Let_def
      split: option.splits)

lemma chronological_in_order:
  assumes "chronological dp rs"
  shows "array_sort (compare_timestamps dp) rs = rs"
proof -
  from assms have "successively (time_le dp) rs"
    unfolding chronological_def by (rule successively_if_sorted_wrt)
  then have "successively (\<lambda>a b. \<not> cmp_lt0 (compare_timestamps dp b a)) rs"
    by (rule successively_mono) (auto dest: time_le_cmp)
  then show ?thesis by (rule array_sort_in_order)
qed

lemma appendReading_is_recompute_body:
  assumes "log_append_ok env" and "stats_append_ok env"
    and "getTime dp (JStr (clock env)) \<noteq> None"
  shows "stats_after (appendReading dp env r st) = recompute_body dp st (r\<lparr>timestamp := JStr (clock env)\<rparr>)"
  using assms
  by (auto simp: appendReading_def recompute_body_def Let_def split: option.splits)

lemma appendReadings_replay:
  assumes "calls_succeed calls" and "parseable dp (map stamped_reading calls)"
  shows "appendReadings dp st calls = foldl (recompute_body dp) st (map stamped_reading calls)"
  using assms
proof (induction calls arbitrary: st)
  case Nil
  then show ?case by (simp add: appendReadings_def)
next
  case (Cons c cs)
  from Cons.prems have ok: "log_append_ok (fst c)" "stats_append_ok (fst c)"
    and rest: "calls_succeed cs" "parseable dp (map stamped_reading cs)"
    by (simp_all add: calls_succeed_def parseable_def)
  from Cons.prems have p: "getTime dp (JStr (clock (fst c))) \<noteq> None"
    by (simp add: parseable_def stamped_reading_def)
  have step: "stats_after (appendReading dp (fst c) (snd c) st) = recompute_body dp st (stamped_reading c)"
    unfolding stamped_reading_def using ok p by (rule appendReading_is_recompute_body)
  have "appendReadings dp st (c # cs) = appendReadings dp (stats_after (appendReading dp (fst c) (snd c) st)) cs"
    by (simp add: appendReadings_def)
  also have "\<dots> = foldl (recompute_body dp) (recompute_body dp st (stamped_reading c)) (map stamped_reading cs)"
    using Cons.IH [OF rest] step by simp
  finally show ?case by simp
qed

text \<open>
  C1. For a chronological run of readings whose stamps all parse, \<^verbatim>\<open>recomputeStats\<close> on
  the stamped readings returns the statistics (both totals, last status, last timestamp)
  that the calls of \<^verbatim>\<open>appendReading\<close>, made one after the other from the reset state, leave
  behind.
\<close>

theorem recompute_replay_equivalence:
  assumes "calls_succeed calls"
    and "parseable dp (map stamped_reading calls)"
    and "chronological dp (map stamped_reading calls)"
  shows "recomputeStats dp (map stamped_reading calls) = appendReadings dp resetStats calls"
  using assms
  by (simp add: recomputeStats_def chronological_in_order appendReadings_replay)

lemma demo_times_distinct: "T0 \<noteq> T5" "T0 \<noteq> T15" "T5 \<noteq> T15" "T0 \<noteq> []" "T5 \<noteq> []" "T15 \<noteq> []"
  by (simp_all add: T0_def T5_def T15_def js_def)

lemma demo_parse:
  "demo_date_parse (JStr T0) = Some 1704067200000"
  "demo_date_parse (JStr T5) = Some 1704067205000"
  "demo_date_parse (JStr T15) = Some 1704067215000"
  using demo_times_distinct by (simp_all add: demo_date_parse_def)

lemmas demo_times = demo_parse demo_times_distinct

lemma demo_calls_ok:
  "calls_succeed demo_calls"
  by (simp add: calls_succeed_def demo_calls_def demo_io_def)

lemma demo_calls_parseable: "parseable demo_date_parse (map stamped_reading demo_calls)"
  by (simp add: parseable_def demo_calls_def demo_io_def stamped_reading_def demo_times)

lemma demo_calls_chronological: "chronological demo_date_parse (map stamped_reading demo_calls)"
  by (simp add: chronological_def time_le_def demo_calls_def demo_io_def stamped_reading_def
      demo_times)

theorem recompute_replay_equivalence_witness:
  "calls_succeed demo_calls
   \<and> parseable demo_date_parse (map stamped_reading demo_calls)
   \<and> chronological demo_date_parse (map stamped_reading demo_calls)
   \<and> recomputeStats demo_date_parse (map stamped_reading demo_calls)
       = appendReadings demo_date_parse resetStats demo_calls"
  using recompute_replay_equivalence [OF demo_calls_ok demo_calls_parseable demo_calls_chronological]
    demo_calls_ok demo_calls_parseable demo_calls_chronological
  by simp

text \<open>
  The run of the sample data: five seconds offline, then ten seconds online.
\<close>

lemma demo_run:
  "appendReadings demo_date_parse resetStats demo_calls =
     \<lparr>total_online_ms = Some 10000, total_offline_ms = Some 5000, last_status = Some False,
      last_timestamp = JStr T15\<rparr>"
  by (simp add: appendReadings_def demo_calls_def demo_io_def demo_payload_def appendReading_def
      resetStats_def demo_times computeOnline_def Let_def num_sub_def num_add_def
      Math_max0_def num_gt0_def)



section \<open>One step of the state machine\<close>


lemma getTime_string: "getTime dp (JStr s) = Some l \<Longrightarrow> truthy (JStr s)"
  by (auto split: if_splits)


text \<open>
  Well-formed statistics stay well-formed: through every call of \<^verbatim>\<open>appendReading\<close> whose
  stamp parses, and through every recomputation.
\<close>

lemma well_formed_resetStats: "well_formed dp resetStats"
  by (simp add: well_formed_def resetStats_def)

lemma well_formed_appendReading:
  "well_formed dp st \<Longrightarrow> getTime dp (JStr (clock env)) \<noteq> None \<Longrightarrow>
     well_formed dp (stats_after (appendReading dp env r st))"
  by (auto simp: well_formed_def appendReading_def Let_def num_add_def num_sub_def Math_max0_def
      split: option.splits simp del: getTime.simps)

lemma well_formed_recompute_body:
  "well_formed dp st \<Longrightarrow> well_formed dp (recompute_body dp st r)"
  by (auto simp: well_formed_def recompute_body_def Let_def num_add_def num_sub_def Math_max0_def
      split: option.splits simp del: getTime.simps)

lemma well_formed_replay:
  "well_formed dp st \<Longrightarrow> well_formed dp (foldl (recompute_body dp) st rs)"
  by (induction rs arbitrary: st) (simp_all add: well_formed_recompute_body)

lemma well_formed_recomputeStats: "well_formed dp (recomputeStats dp rs)"
  by (simp add: recomputeStats_def well_formed_replay well_formed_resetStats)

text \<open>
  C10. One call of \<^verbatim>\<open>appendReading\<close>, completed or not, changes at most one of the two
  totals, the change adds a delta that is not negative, and when no last status is set or
  the last timestamp does not count as set both totals stay as they are.
\<close>

theorem appendReading_frame:
  assumes "well_formed dp st" and "getTime dp (JStr (clock env)) \<noteq> None"
    and "total_online_ms st = Some on_ms" and "total_offline_ms st = Some off_ms"
  shows "(\<exists>d. 0 \<le> d \<and>
            ((total_online_ms (stats_after (appendReading dp env r st)) = Some (on_ms + d) \<and>
              total_offline_ms (stats_after (appendReading dp env r st)) = Some off_ms) \<or>
             (total_online_ms (stats_after (appendReading dp env r st)) = Some on_ms \<and>
              total_offline_ms (stats_after (appendReading dp env r st)) = Some (off_ms + d))))
       \<and> (last_status st = None \<or> \<not> truthy (last_timestamp st) \<longrightarrow>
            total_online_ms (stats_after (appendReading dp env r st)) = Some on_ms \<and>
            total_offline_ms (stats_after (appendReading dp env r st)) = Some off_ms)"
proof -
  let ?res = "appendReading dp env r st"
  from assms(2) obtain t where "getTime dp (JStr (clock env)) = Some t" by auto
  then have t: "getTime dp (timestamp (r\<lparr>timestamp := JStr (clock env)\<rparr>)) = Some t" by simp
  have unset: "last_status st = None \<or> \<not> truthy (last_timestamp st) \<Longrightarrow>
      total_online_ms (stats_after ?res) = Some on_ms \<and> total_offline_ms (stats_after ?res) = Some off_ms"
    using assms(3,4) by (auto simp: appendReading_def Let_def split: option.splits)
  have "\<exists>d. 0 \<le> d \<and>
            ((total_online_ms (stats_after ?res) = Some (on_ms + d) \<and>
              total_offline_ms (stats_after ?res) = Some off_ms) \<or>
             (total_online_ms (stats_after ?res) = Some on_ms \<and>
              total_offline_ms (stats_after ?res) = Some (off_ms + d)))"
  proof (cases "\<exists>b. last_status st = Some b \<and> truthy (last_timestamp st) \<and> log_append_ok env")
    case True
    then obtain b where b: "last_status st = Some b" and ts: "truthy (last_timestamp st)"
      and ok: "log_append_ok env" by blast
    from assms(1) obtain l where l: "getTime dp (last_timestamp st) = Some l"
      by (auto simp: well_formed_def)
    have "total_online_ms (stats_after ?res) = Some (if b then on_ms + max 0 (t - l) else on_ms)
        \<and> total_offline_ms (stats_after ?res) = Some (if b then off_ms else off_ms + max 0 (t - l))"
      using b ts ok l t assms(3,4)
      by (simp add: appendReading_def Let_def num_sub_def num_add_def Math_max0_def
          del: getTime.simps)
    then show ?thesis
      by (intro exI [of _ "max 0 (t - l)"]) (cases b; simp)
  next
    case False
    then have "total_online_ms (stats_after ?res) = Some on_ms \<and> total_offline_ms (stats_after ?res) = Some off_ms"
      using assms(3,4) by (auto simp: appendReading_def Let_def split: option.splits)
    then show ?thesis by (intro exI [of _ 0]) simp
  qed
  with unset show ?thesis by blast
qed

theorem appendReading_frame_witness:
  "well_formed demo_date_parse demo_stats
   \<and> getTime demo_date_parse (JStr (clock (demo_io T5))) \<noteq> None
   \<and> total_online_ms demo_stats = Some 0
   \<and> total_offline_ms demo_stats = Some 0
   \<and> (\<exists>d. 0 \<le> d \<and>
        ((total_online_ms (stats_after (appendReading demo_date_parse
             (demo_io T5) (demo_payload 1) demo_stats)) = Some (0 + d) \<and>
          total_offline_ms (stats_after (appendReading demo_date_parse
             (demo_io T5) (demo_payload 1) demo_stats)) = Some 0) \<or>
         (total_online_ms (stats_after (appendReading demo_date_parse
             (demo_io T5) (demo_payload 1) demo_stats)) = Some 0 \<and>
          total_offline_ms (stats_after (appendReading demo_date_parse
             (demo_io T5) (demo_payload 1) demo_stats)) = Some (0 + d))))"
proof -
  let ?env = "demo_io T5"
  have h1: "well_formed demo_date_parse demo_stats"
    by (simp add: well_formed_def demo_stats_def demo_times)
  have h2: "getTime demo_date_parse (JStr (clock ?env)) \<noteq> None"
    by (simp add: demo_times demo_io_def)
  have h3: "total_online_ms demo_stats = Some 0" and h4: "total_offline_ms demo_stats = Some 0"
    by (simp_all add: demo_stats_def)
  from appendReading_frame [OF h1 h2 h3 h4, of "demo_payload 1"] h1 h2 h3 h4
  show ?thesis by blast
qed



section \<open>Readings out of order\<close>

lemma garbage_no_date:
  "demo_date_parse (JStr (js ''garbage'')) = None" "js ''garbage'' \<noteq> []"
  by (simp_all add: demo_date_parse_def T0_def T5_def T15_def js_def)

lemma demo_unsorted_stays:
  "array_sort (compare_timestamps demo_date_parse) demo_unsorted = demo_unsorted"
  by (rule array_sort_in_order)
     (simp add: demo_unsorted_def demo_reading_def compare_timestamps_def num_sub_def cmp_lt0_def
        garbage_no_date demo_times)

lemma demo_sorted_stays:
  "array_sort (compare_timestamps demo_date_parse) demo_sorted = demo_sorted"
  by (rule array_sort_in_order)
     (simp add: demo_sorted_def demo_reading_def compare_timestamps_def num_sub_def cmp_lt0_def
        garbage_no_date demo_times)

text \<open>
  C3. The claim is that \<^verbatim>\<open>recomputeStats\<close> gives the same statistics on every arrangement of
  a set of readings as on the arrangement sorted by timestamp. The program does not, on
  the readings online at fifteen seconds, a timestamp that is no date, offline at five
  seconds, in this order: the comparator of lines 76-80 returns \<^verbatim>\<open>NaN\<close> against the reading
  with no date, the sort takes that for a tie and leaves the array as it is, and the loop
  meets the later reading first. The result is no time in either total and a last
  observation of offline at five seconds, where the same three readings in the order of
  their times give ten seconds offline and a last observation of online at fifteen seconds.
\<close>

theorem recompute_depends_on_order:
  "demo_sorted = [demo_unsorted ! 2, demo_unsorted ! 0, demo_unsorted ! 1]
   \<and> array_sort (compare_timestamps demo_date_parse) demo_unsorted = demo_unsorted
   \<and> array_sort (compare_timestamps demo_date_parse) demo_sorted = demo_sorted
   \<and> recomputeStats demo_date_parse demo_unsorted =
       \<lparr>total_online_ms = Some 0, total_offline_ms = Some 0,
        last_status = Some False, last_timestamp = JStr T5\<rparr>
   \<and> recomputeStats demo_date_parse demo_sorted =
       \<lparr>total_online_ms = Some 0, total_offline_ms = Some 10000,
        last_status = Some True, last_timestamp = JStr T15\<rparr>"
proof -
  have perm: "demo_sorted = [demo_unsorted ! 2, demo_unsorted ! 0, demo_unsorted ! 1]"
    by (simp add: demo_sorted_def demo_unsorted_def)
  have unsorted: "recomputeStats demo_date_parse demo_unsorted =
       \<lparr>total_online_ms = Some 0, total_offline_ms = Some 0,
        last_status = Some False, last_timestamp = JStr T5\<rparr>"
    unfolding recomputeStats_def Let_def demo_unsorted_stays
    by (simp add: demo_unsorted_def demo_reading_def recompute_body_def resetStats_def
        computeOnline_def Let_def num_sub_def num_add_def Math_max0_def garbage_no_date demo_times)
  have in_order: "recomputeStats demo_date_parse demo_sorted =
       \<lparr>total_online_ms = Some 0, total_offline_ms = Some 10000,
        last_status = Some True, last_timestamp = JStr T15\<rparr>"
    unfolding recomputeStats_def Let_def demo_sorted_stays
    by (simp add: demo_sorted_def demo_reading_def recompute_body_def resetStats_def
        computeOnline_def Let_def num_sub_def num_add_def Math_max0_def garbage_no_date demo_times)
  from perm demo_unsorted_stays demo_sorted_stays unsorted in_order show ?thesis by blast
qed


section \<open>The pairing of the last observation\<close>

text \<open>
  \<^verbatim>\<open>appendReading\<close> keeps the last status and the last timestamp paired, since the timestamp
  it assigns is a string; so does the loop of \<^verbatim>\<open>recomputeStats\<close> on a reading whose
  timestamp is not \<^verbatim>\<open>null\<close>.
\<close>

lemma paired_appendReading: "paired st \<Longrightarrow> paired (stats_after (appendReading dp env r st))"
  by (auto simp: paired_def appendReading_def Let_def split: option.splits)

lemma paired_recompute_body:
  "paired st \<Longrightarrow> timestamp r \<noteq> JNull \<Longrightarrow> paired (recompute_body dp st r)"
  by (auto simp: paired_def recompute_body_def Let_def split: option.splits)

lemma paired_replay:
  "paired st \<Longrightarrow> list_all (\<lambda>r. timestamp r \<noteq> JNull) rs \<Longrightarrow>
     paired (foldl (recompute_body dp) st rs)"
  by (induction rs arbitrary: st) (simp_all add: paired_recompute_body)

lemma paired_resetStats: "paired resetStats"
  by (simp add: paired_def resetStats_def)

lemma null_timestamp_line:
  "read_lines (Some demo_log_null) = [''{\"power\":1,\"timestamp\":null}'']"
  by (simp add: read_lines_def demo_log_null_def)

lemma null_timestamp_kept:
  "kept_readings dp demo_parse_reading (of_int demo_now - RETENTION_MS (Some 30000))
     [''{\"power\":1,\"timestamp\":null}''] = [demo_reading (JNum (NumFin 1)) JNull]"
  by (simp add: kept_readings_def demo_parse_reading_def demo_reading_def demo_now_def
      RETENTION_MS_def RETENTION_DAYS_def)

lemma null_timestamp_recompute:
  "recomputeStats dp [demo_reading (JNum (NumFin 1)) JNull] =
     \<lparr>total_online_ms = Some 0, total_offline_ms = Some 0,
      last_status = Some True, last_timestamp = JNull\<rparr>"
  by (simp add: recomputeStats_def array_sort_def recompute_body_def resetStats_def
      demo_reading_def computeOnline_def Let_def)

text \<open>
  C8. The claim is that the last status and the last timestamp are both set or both unset
  in every value the statistics take through appending, recomputing, pruning and
  resetting. The program breaks it on one reading whose \<^verbatim>\<open>timestamp\<close> is \<^verbatim>\<open>null\<close>:
  \<^verbatim>\<open>new Date(null).getTime()\<close> is \<open>0\<close>, not \<^verbatim>\<open>NaN\<close>, so line 84 does not skip the reading, and
  lines 97-98 set the last status and assign \<^verbatim>\<open>null\<close> to the last timestamp. This is what
  \<^verbatim>\<open>recomputeStats\<close> returns for that reading, and what \<^verbatim>\<open>pruneOldReadings\<close> leaves in the
  statistics for a log with that line when the retention reaches back before 1970.
\<close>

theorem null_timestamp_unpaired:
  "recomputeStats dp [demo_reading (JNum (NumFin 1)) JNull] =
     \<lparr>total_online_ms = Some 0, total_offline_ms = Some 0,
      last_status = Some True, last_timestamp = JNull\<rparr>
   \<and> reachable dp (recomputeStats dp [demo_reading (JNum (NumFin 1)) JNull])
   \<and> \<not> paired (recomputeStats dp [demo_reading (JNum (NumFin 1)) JNull])
   \<and> stats_next (pruneOldReadings dp demo_parse_reading demo_stringify_reading
        demo_now (RETENTION_MS (Some 30000)) (Some demo_log_null) True initial_stats) =
     \<lparr>total_online_ms = Some 0, total_offline_ms = Some 0,
      last_status = Some True, last_timestamp = JNull\<rparr>
   \<and> reachable dp (stats_next (pruneOldReadings dp demo_parse_reading demo_stringify_reading
        demo_now (RETENTION_MS (Some 30000)) (Some demo_log_null) True initial_stats))
   \<and> \<not> paired (stats_next (pruneOldReadings dp demo_parse_reading demo_stringify_reading
        demo_now (RETENTION_MS (Some 30000)) (Some demo_log_null) True initial_stats))"
proof -
  let ?st = "\<lparr>total_online_ms = Some 0, total_offline_ms = Some 0,
      last_status = Some True, last_timestamp = JNull\<rparr>"
  have unpaired: "\<not> paired ?st" by (simp add: paired_def)
  have r1: "reachable dp (recomputeStats dp [demo_reading (JNum (NumFin 1)) JNull])"
    by (rule reach_recompute) (rule reach_initial)
  have r2: "reachable dp (stats_next (pruneOldReadings dp demo_parse_reading demo_stringify_reading
        demo_now (RETENTION_MS (Some 30000)) (Some demo_log_null) True initial_stats))"
    by (rule reach_prune) (rule reach_initial)
  have pruned: "stats_next (pruneOldReadings dp demo_parse_reading demo_stringify_reading
        demo_now (RETENTION_MS (Some 30000)) (Some demo_log_null) True initial_stats) = ?st"
    unfolding pruneOldReadings_def null_timestamp_line Let_def null_timestamp_kept
    by (simp add: null_timestamp_recompute)
  from unpaired r1 r2 pruned null_timestamp_recompute [of dp] show ?thesis by simp
qed


section \<open>Pruning\<close>

text \<open>
  C6. After a run of the readings pruner whose rewrite succeeds, the statistics are
  \<^verbatim>\<open>recomputeStats\<close> of the kept readings when there are any, and the unset state with both
  totals zero when there are none.
\<close>

theorem prune_accounting_consistent:
  assumes "write_ok"
  shows "let res = pruneOldReadings dp parse stringify now retention_ms raw write_ok st
         in (kept_records res \<noteq> [] \<longrightarrow> stats_next res = recomputeStats dp (kept_records res))
          \<and> (kept_records res = [] \<longrightarrow>
               stats_next res = \<lparr>total_online_ms = Some 0, total_offline_ms = Some 0,
                                  last_status = None, last_timestamp = JNull\<rparr>)"
  using assms by (simp add: pruneOldReadings_def Let_def resetStats_def)


lemma split_nl_line:
  "CHR 0x0A \<notin> set l \<Longrightarrow> split_nl (l @ CHR 0x0A # rest) = l # split_nl rest"
  by (induction l) auto

lemma split_nl_join:
  "ls \<noteq> [] \<Longrightarrow> \<forall>l\<in>set ls. CHR 0x0A \<notin> set l \<Longrightarrow>
     split_nl (join_nl ls @ [CHR 0x0A]) = ls @ [[]]"
proof (induction ls rule: join_nl.induct)
  case 1
  then show ?case by simp
next
  case (2 l)
  then show ?case by (simp add: split_nl_line)
next
  case (3 l k ks)
  then have "split_nl (join_nl (k # ks) @ [CHR 0x0A]) = (k # ks) @ [[]]" by simp
  moreover from 3 have "CHR 0x0A \<notin> set l" by simp
  ultimately show ?case by (simp add: split_nl_line)
qed

lemma read_lines_payload:
  assumes "ls \<noteq> []" and "\<forall>l\<in>set ls. l \<noteq> [] \<and> CHR 0x0A \<notin> set l"
  shows "read_lines (Some (join_nl ls @ [CHR 0x0A])) = ls"
proof -
  from assms have "split_nl (join_nl ls @ [CHR 0x0A]) = ls @ [[]]"
    by (simp add: split_nl_join)
  moreover from assms(2) have "filter (\<lambda>l. l \<noteq> []) ls = ls"
    by (simp add: filter_id_conv)
  ultimately show ?thesis by (simp add: read_lines_def)
qed

lemma read_lines_empty: "read_lines (Some []) = []"
  by (simp add: read_lines_def)

lemma kept_readings_filter:
  "kept_readings dp parse cutoff lines =
     filter (reading_retained dp cutoff) (List.map_filter parse lines)"
  by (induction lines)
     (auto simp: kept_readings_def reading_retained_def on_or_after_def List.map_filter_simps
        split: option.splits simp del: getTime.simps)

lemma kept_segments_filter:
  "kept_segments dp parse cutoff lines =
     filter (segment_retained dp cutoff) (List.map_filter parse lines)"
  by (induction lines)
     (auto simp: kept_segments_def segment_retained_def on_or_after_def Let_def
        List.map_filter_simps split: option.splits if_splits simp del: getTime.simps)

lemma payload_of_cong:
  "map stringify a = map stringify b \<Longrightarrow> payload_of stringify a = payload_of stringify b"
  by (auto simp: payload_of_def)

lemma read_lines_written:
  assumes "list_all (reads_back parse stringify retained) kept"
  shows "read_lines (Some (payload_of stringify kept)) = map stringify kept"
proof (cases "kept = []")
  case True
  then show ?thesis by (simp add: payload_of_def read_lines_empty)
next
  case False
  from assms have "\<forall>l\<in>set (map stringify kept). l \<noteq> [] \<and> CHR 0x0A \<notin> set l"
    by (auto simp: reads_back_def list_all_iff)
  with False have "read_lines (Some (join_nl (map stringify kept) @ [CHR 0x0A])) = map stringify kept"
    by (intro read_lines_payload) simp_all
  with False show ?thesis by (simp add: payload_of_def)
qed

lemma reread_same_lines:
  "list_all (reads_back parse stringify retained) kept \<Longrightarrow>
     map stringify (filter retained (List.map_filter parse (map stringify kept))) =
     map stringify kept"
  by (induction kept)
     (auto simp: reads_back_def List.map_filter_simps split: option.splits)

lemma pruneOldReadings_kept:
  "kept_records (pruneOldReadings dp parse stringify now rms raw ok st) =
     filter (reading_retained dp (of_int now - rms)) (records_of parse raw)"
  by (simp add: pruneOldReadings_def Let_def kept_readings_filter records_of_def)

lemma pruneOldReadings_written:
  "written (pruneOldReadings dp parse stringify now rms raw ok st) = Inr out \<Longrightarrow>
     out = payload_of stringify (kept_records (pruneOldReadings dp parse stringify now rms raw ok st))"
  by (auto simp: pruneOldReadings_def Let_def payload_of_def split: if_splits)

lemma pruneOldReadings_written_ok:
  "written (pruneOldReadings dp parse stringify now rms raw True st) =
     Inr (payload_of stringify (kept_records (pruneOldReadings dp parse stringify now rms raw True st)))"
  by (auto simp: pruneOldReadings_def Let_def payload_of_def split: if_splits)

lemma pruneOldStatsLog_kept:
  "kept_records (pruneOldStatsLog dp parse stringify now rms raw ok st) =
     filter (segment_retained dp (of_int now - rms)) (records_of parse raw)"
  by (simp add: pruneOldStatsLog_def Let_def kept_segments_filter records_of_def)

lemma pruneOldStatsLog_written:
  "written (pruneOldStatsLog dp parse stringify now rms raw ok st) = Inr out \<Longrightarrow>
     out = payload_of stringify (kept_records (pruneOldStatsLog dp parse stringify now rms raw ok st))"
  by (auto simp: pruneOldStatsLog_def Let_def payload_of_def split: if_splits)

lemma pruneOldStatsLog_written_ok:
  "written (pruneOldStatsLog dp parse stringify now rms raw True st) =
     Inr (payload_of stringify (kept_records (pruneOldStatsLog dp parse stringify now rms raw True st)))"
  by (auto simp: pruneOldStatsLog_def Let_def payload_of_def split: if_splits)

lemma pruned_readings:
  assumes w: "written (pruneOldReadings dp parse stringify now rms raw ok st) = Inr out"
  shows "out = payload_of stringify
                 (filter (reading_retained dp (of_int now - rms)) (records_of parse raw))"
    and "list_all (reads_back parse stringify (reading_retained dp (of_int now - rms)))
           (filter (reading_retained dp (of_int now - rms)) (records_of parse raw)) \<Longrightarrow>
         written (pruneOldReadings dp parse stringify now rms (Some out) True st') = Inr out"
proof -
  let ?P = "reading_retained dp (of_int now - rms)"
  let ?kept = "filter ?P (records_of parse raw)"
  show out: "out = payload_of stringify ?kept"
    using pruneOldReadings_written [OF w] by (simp add: pruneOldReadings_kept)
  assume rb: "list_all (reads_back parse stringify ?P) ?kept"
  have "read_lines (Some out) = map stringify ?kept"
    unfolding out by (rule read_lines_written [OF rb])
  then have "records_of parse (Some out) = List.map_filter parse (map stringify ?kept)"
    by (simp only: records_of_def [of parse "Some out"])
  then have "map stringify
        (kept_records (pruneOldReadings dp parse stringify now rms (Some out) True st')) =
      map stringify ?kept"
    by (simp add: pruneOldReadings_kept reread_same_lines [OF rb])
  then show "written (pruneOldReadings dp parse stringify now rms (Some out) True st') = Inr out"
    unfolding pruneOldReadings_written_ok out sum.inject by (rule payload_of_cong)
qed

lemma pruned_segments:
  assumes w: "written (pruneOldStatsLog dp parse stringify now rms raw ok st) = Inr out"
  shows "out = payload_of stringify
                 (filter (segment_retained dp (of_int now - rms)) (records_of parse raw))"
    and "list_all (reads_back parse stringify (segment_retained dp (of_int now - rms)))
           (filter (segment_retained dp (of_int now - rms)) (records_of parse raw)) \<Longrightarrow>
         written (pruneOldStatsLog dp parse stringify now rms (Some out) True st') = Inr out"
proof -
  let ?P = "segment_retained dp (of_int now - rms)"
  let ?kept = "filter ?P (records_of parse raw)"
  show out: "out = payload_of stringify ?kept"
    using pruneOldStatsLog_written [OF w] by (simp add: pruneOldStatsLog_kept)
  assume rb: "list_all (reads_back parse stringify ?P) ?kept"
  have "read_lines (Some out) = map stringify ?kept"
    unfolding out by (rule read_lines_written [OF rb])
  then have "records_of parse (Some out) = List.map_filter parse (map stringify ?kept)"
    by (simp only: records_of_def [of parse "Some out"])
  then have "map stringify
        (kept_records (pruneOldStatsLog dp parse stringify now rms (Some out) True st')) =
      map stringify ?kept"
    by (simp add: pruneOldStatsLog_kept reread_same_lines [OF rb])
  then show "written (pruneOldStatsLog dp parse stringify now rms (Some out) True st') = Inr out"
    unfolding pruneOldStatsLog_written_ok out sum.inject by (rule payload_of_cong)
qed


text \<open>
  C5. The file a pruner writes holds exactly the records of the input whose timestamp
  (\<^verbatim>\<open>timestamp\<close> for readings, \<^verbatim>\<open>snapshot_at\<close> for segments, which must also count as set) has
  a time at or after the cutoff \<open>now - retention\<close>, in their order, each one as
  \<^verbatim>\<open>JSON.stringify\<close> writes the object \<^verbatim>\<open>JSON.parse\<close> made of its line, whatever the log
  holds. Pruning the written file again with the same cutoff writes the same file, given
  that every line written reads back as a record that is written the same way and is
  retained under the same cutoff.
\<close>

theorem prune_filter_exact_idempotent:
  assumes "written (pruneOldReadings dp parse_r stringify_r now rms raw_r ok_r st) = Inr out_r"
    and "written (pruneOldStatsLog dp parse_s stringify_s now rms raw_s ok_s st) = Inr out_s"
  shows "out_r = payload_of stringify_r
                   (filter (reading_retained dp (of_int now - rms)) (records_of parse_r raw_r))
       \<and> out_s = payload_of stringify_s
                   (filter (segment_retained dp (of_int now - rms)) (records_of parse_s raw_s))
       \<and> (list_all (reads_back parse_r stringify_r (reading_retained dp (of_int now - rms)))
             (filter (reading_retained dp (of_int now - rms)) (records_of parse_r raw_r)) \<longrightarrow>
           written (pruneOldReadings dp parse_r stringify_r now rms (Some out_r) True st') = Inr out_r)
       \<and> (list_all (reads_back parse_s stringify_s (segment_retained dp (of_int now - rms)))
             (filter (segment_retained dp (of_int now - rms)) (records_of parse_s raw_s)) \<longrightarrow>
           written (pruneOldStatsLog dp parse_s stringify_s now rms (Some out_s) True st') = Inr out_s)"
  using pruned_readings [OF assms(1)] pruned_segments [OF assms(2)] by blast

lemma demo_read_lines: "read_lines (Some demo_log) =
   [''{\"power\":0,\"timestamp\":\"2024-01-01T00:00:00.000Z\"}'', ''not json'',
    ''{\"power\":1,\"timestamp\":\"2024-01-01T00:00:05.000Z\"}'']"
  by (simp add: read_lines_def demo_log_def)

lemma demo_records: "records_of demo_parse_reading (Some demo_log) =
   [demo_reading (JNum (NumFin 0)) (JStr T0), demo_reading (JNum (NumFin 1)) (JStr T5)]"
  by (simp add: records_of_def demo_read_lines List.map_filter_simps demo_parse_reading_def)

lemma demo_retained:
  "filter (reading_retained demo_date_parse (of_int demo_now - RETENTION_MS None))
     (records_of demo_parse_reading (Some demo_log)) = [demo_reading (JNum (NumFin 1)) (JStr T5)]"
  by (simp add: demo_records reading_retained_def on_or_after_def demo_times
      demo_reading_def demo_now_def RETENTION_MS_def RETENTION_DAYS_def)

lemma demo_reads_back:
  "list_all (reads_back demo_parse_reading demo_stringify_reading
       (reading_retained demo_date_parse (of_int demo_now - RETENTION_MS None)))
     (filter (reading_retained demo_date_parse (of_int demo_now - RETENTION_MS None))
        (records_of demo_parse_reading (Some demo_log)))"
  unfolding demo_retained
  by (simp add: reads_back_def demo_parse_reading_def demo_stringify_reading_def
      reading_retained_def on_or_after_def demo_times demo_reading_def demo_now_def
      RETENTION_MS_def RETENTION_DAYS_def)

lemma demo_kept: "kept_records (pruneOldReadings demo_date_parse demo_parse_reading demo_stringify_reading
      demo_now (RETENTION_MS None) (Some demo_log) True initial_stats) =
      [demo_reading (JNum (NumFin 1)) (JStr T5)]"
  by (simp only: pruneOldReadings_kept demo_retained)

lemma demo_written: "written (pruneOldReadings demo_date_parse demo_parse_reading demo_stringify_reading
      demo_now (RETENTION_MS None) (Some demo_log) True initial_stats) =
      Inr (''{\"power\":1,\"timestamp\":\"2024-01-01T00:00:05.000Z\"}'' @ [CHR 0x0A])"
  by (simp add: pruneOldReadings_written_ok demo_kept payload_of_def demo_stringify_reading_def
      demo_reading_def)

lemma demo_segment_records:
  "records_of demo_parse_segment (Some demo_segment_line) = [demo_segment]"
  by (simp add: records_of_def read_lines_def demo_segment_line_def demo_parse_segment_def
      List.map_filter_simps)

lemma demo_segment_retained:
  "filter (segment_retained demo_date_parse (of_int demo_now - RETENTION_MS None))
     (records_of demo_parse_segment (Some demo_segment_line)) = [demo_segment]"
  by (simp add: demo_segment_records segment_retained_def on_or_after_def demo_times
      demo_segment_def demo_now_def RETENTION_MS_def RETENTION_DAYS_def)

lemma demo_segment_line_plain: "demo_segment_line \<noteq> []" "CHR 0x0A \<notin> set demo_segment_line"
  by (simp_all add: demo_segment_line_def)

lemma demo_segment_reads_back:
  "list_all (reads_back demo_parse_segment demo_stringify_segment
       (segment_retained demo_date_parse (of_int demo_now - RETENTION_MS None)))
     (filter (segment_retained demo_date_parse (of_int demo_now - RETENTION_MS None))
        (records_of demo_parse_segment (Some demo_segment_line)))"
proof -
  have "segment_retained demo_date_parse (of_int demo_now - RETENTION_MS None) demo_segment"
    by (simp add: segment_retained_def on_or_after_def demo_times
        demo_segment_def demo_now_def RETENTION_MS_def RETENTION_DAYS_def)
  then show ?thesis
    unfolding demo_segment_retained
    by (simp add: reads_back_def demo_parse_segment_def demo_stringify_segment_def
        demo_segment_line_plain)
qed

lemma demo_segment_kept:
  "kept_records (pruneOldStatsLog demo_date_parse demo_parse_segment demo_stringify_segment
      demo_now (RETENTION_MS None) (Some demo_segment_line) True initial_stats) = [demo_segment]"
  by (simp only: pruneOldStatsLog_kept demo_segment_retained)

lemma demo_segment_written:
  "written (pruneOldStatsLog demo_date_parse demo_parse_segment demo_stringify_segment
      demo_now (RETENTION_MS None) (Some demo_segment_line) True initial_stats) =
     Inr (demo_segment_line @ [CHR 0x0A])"
  by (simp add: pruneOldStatsLog_written_ok demo_segment_kept payload_of_def
      demo_stringify_segment_def)

theorem prune_filter_exact_idempotent_witness:
  "written (pruneOldReadings demo_date_parse demo_parse_reading demo_stringify_reading
        demo_now (RETENTION_MS None) (Some demo_log) True initial_stats) =
       Inr (''{\"power\":1,\"timestamp\":\"2024-01-01T00:00:05.000Z\"}'' @ [CHR 0x0A])
   \<and> written (pruneOldStatsLog demo_date_parse demo_parse_segment demo_stringify_segment
        demo_now (RETENTION_MS None) (Some demo_segment_line) True initial_stats) =
       Inr (demo_segment_line @ [CHR 0x0A])
   \<and> list_all (reads_back demo_parse_reading demo_stringify_reading
         (reading_retained demo_date_parse (of_int demo_now - RETENTION_MS None)))
       (filter (reading_retained demo_date_parse (of_int demo_now - RETENTION_MS None))
          (records_of demo_parse_reading (Some demo_log)))
   \<and> list_all (reads_back demo_parse_segment demo_stringify_segment
         (segment_retained demo_date_parse (of_int demo_now - RETENTION_MS None)))
       (filter (segment_retained demo_date_parse (of_int demo_now - RETENTION_MS None))
          (records_of demo_parse_segment (Some demo_segment_line)))
   \<and> ''{\"power\":1,\"timestamp\":\"2024-01-01T00:00:05.000Z\"}'' @ [CHR 0x0A] =
       payload_of demo_stringify_reading [demo_reading (JNum (NumFin 1)) (JStr T5)]
   \<and> demo_segment_line @ [CHR 0x0A] = payload_of demo_stringify_segment [demo_segment]
   \<and> written (pruneOldReadings demo_date_parse demo_parse_reading demo_stringify_reading
        demo_now (RETENTION_MS None)
        (Some (''{\"power\":1,\"timestamp\":\"2024-01-01T00:00:05.000Z\"}'' @ [CHR 0x0A]))
        True initial_stats) =
       Inr (''{\"power\":1,\"timestamp\":\"2024-01-01T00:00:05.000Z\"}'' @ [CHR 0x0A])
   \<and> written (pruneOldStatsLog demo_date_parse demo_parse_segment demo_stringify_segment
        demo_now (RETENTION_MS None) (Some (demo_segment_line @ [CHR 0x0A])) True initial_stats) =
       Inr (demo_segment_line @ [CHR 0x0A])"
proof -
  note inst = prune_filter_exact_idempotent [OF demo_written demo_segment_written,
      of initial_stats, unfolded demo_retained demo_segment_retained]
  from inst demo_reads_back [unfolded demo_retained]
    demo_segment_reads_back [unfolded demo_segment_retained]
    demo_written demo_segment_written
  show ?thesis
    unfolding demo_retained demo_segment_retained by blast
qed

text \<open>
  A record the readings pruner keeps is not always written with the content it had: a
  number too large for a double is read as \<^verbatim>\<open>Infinity\<close> and written as \<^verbatim>\<open>null\<close>, so the
  record of the written file is not the record of the input.
\<close>

theorem prune_rewrites_fields_counterexample:
  "written (pruneOldReadings demo_date_parse demo_parse_reading demo_stringify_reading
        demo_now (RETENTION_MS None) (Some demo_log_overflow) True initial_stats) =
       Inr (''{\"power\":null,\"timestamp\":\"2024-01-01T00:00:05.000Z\"}'' @ [CHR 0x0A])
   \<and> filter (reading_retained demo_date_parse (of_int demo_now - RETENTION_MS None))
        (records_of demo_parse_reading (Some demo_log_overflow)) =
       [demo_reading (JNum (NumInf True)) (JStr T5)]
   \<and> records_of demo_parse_reading
        (Some (''{\"power\":null,\"timestamp\":\"2024-01-01T00:00:05.000Z\"}'' @ [CHR 0x0A])) =
       [demo_reading JNull (JStr T5)]
   \<and> records_of demo_parse_reading
        (Some (''{\"power\":null,\"timestamp\":\"2024-01-01T00:00:05.000Z\"}'' @ [CHR 0x0A])) \<noteq>
       filter (reading_retained demo_date_parse (of_int demo_now - RETENTION_MS None))
        (records_of demo_parse_reading (Some demo_log_overflow))"
proof -
  have records: "records_of demo_parse_reading (Some demo_log_overflow) =
      [demo_reading (JNum (NumInf True)) (JStr T5)]"
    by (simp add: records_of_def read_lines_def demo_log_overflow_def List.map_filter_simps
        demo_parse_reading_def)
  have retained: "filter (reading_retained demo_date_parse (of_int demo_now - RETENTION_MS None))
        (records_of demo_parse_reading (Some demo_log_overflow)) =
       [demo_reading (JNum (NumInf True)) (JStr T5)]"
    by (simp add: records reading_retained_def on_or_after_def demo_times
        demo_reading_def demo_now_def RETENTION_MS_def RETENTION_DAYS_def)
  have kept: "kept_records (pruneOldReadings demo_date_parse demo_parse_reading
        demo_stringify_reading demo_now (RETENTION_MS None) (Some demo_log_overflow) True
        initial_stats) = [demo_reading (JNum (NumInf True)) (JStr T5)]"
    by (simp only: pruneOldReadings_kept retained)
  have out: "written (pruneOldReadings demo_date_parse demo_parse_reading demo_stringify_reading
        demo_now (RETENTION_MS None) (Some demo_log_overflow) True initial_stats) =
       Inr (''{\"power\":null,\"timestamp\":\"2024-01-01T00:00:05.000Z\"}'' @ [CHR 0x0A])"
    by (simp add: pruneOldReadings_written_ok kept payload_of_def demo_stringify_reading_def
        demo_reading_def)
  have reread: "records_of demo_parse_reading
        (Some (''{\"power\":null,\"timestamp\":\"2024-01-01T00:00:05.000Z\"}'' @ [CHR 0x0A])) =
       [demo_reading JNull (JStr T5)]"
    by (simp add: records_of_def read_lines_def List.map_filter_simps demo_parse_reading_def)
  have differ: "demo_reading JNull (JStr T5) \<noteq> demo_reading (JNum (NumInf True)) (JStr T5)"
    by (simp add: demo_reading_def)
  from out retained reread differ show ?thesis by simp
qed

theorem prune_accounting_consistent_witness:
  "kept_records (pruneOldReadings demo_date_parse demo_parse_reading demo_stringify_reading
      demo_now (RETENTION_MS None) (Some demo_log) True initial_stats) \<noteq> []
   \<and> stats_next (pruneOldReadings demo_date_parse demo_parse_reading demo_stringify_reading
      demo_now (RETENTION_MS None) (Some demo_log) True initial_stats) =
     recomputeStats demo_date_parse
       (kept_records (pruneOldReadings demo_date_parse demo_parse_reading demo_stringify_reading
          demo_now (RETENTION_MS None) (Some demo_log) True initial_stats))"
proof -
  have ok: "True" ..
  from prune_accounting_consistent [OF ok, of demo_date_parse demo_parse_reading
      demo_stringify_reading demo_now "RETENTION_MS None" "Some demo_log" initial_stats]
  show ?thesis by (simp add: Let_def demo_kept)
qed


section \<open>Calls that overlap at the segment append\<close>

lemma formatMs_seconds:
  "formatMs (Some 5000) = js ''00:00:05''" "formatMs (Some 15000) = js ''00:00:15''"
  by (simp_all add: formatMs_def num_floor_div_def num_rem_def num_toString_def padStart2_def
      js_def Let_def)

lemma computeOnline_stamped:
  "computeOnline (r\<lparr>timestamp := t\<rparr>) = computeOnline r"
  by (simp add: computeOnline_def)

text \<open>
  C9. Between its two \<^verbatim>\<open>await\<close>s \<^verbatim>\<open>appendReading\<close> reads and writes the statistics with no
  other code in between, and a call that no other call interrupts has the effect of the
  call run from start to return: the same statistics, the same result, the same lines in
  both logs. Nothing orders calls that overlap. While a call waits for its segment to be
  written, the total is already increased and the last status and timestamp are still the
  ones it found, and they are what a call resumed in the meantime computes with.
\<close>

theorem appendReading_atomic_between_awaits:
  "let a1 = resume dp (call_appendReading env r) st;
       a2 = resume dp (call_next a1) (stats_left a1);
       res = appendReading dp env r st
   in stats_left a2 = stats_after res
    \<and> call_next a2 = Returned (returned res)
    \<and> log_written a1 @ log_written a2 = log_appended res
    \<and> segments_written a1 @ segments_written a2 = segments_appended res
    \<and> (case call_next a1 of
          AtSegmentAppend env' stamped online seg \<Rightarrow>
            last_status (stats_left a1) = last_status st
            \<and> last_timestamp (stats_left a1) = last_timestamp st
            \<and> start_at seg = last_timestamp st
            \<and> segments_written a1 = []
        | Returned result \<Rightarrow> stats_left a1 = stats_after res \<and> result = returned res
        | AtLogAppend env' stamped \<Rightarrow> False)"
  by (auto simp: call_appendReading_def appendReading_def appendStatsSegment_def Let_def
      split: option.splits simp del: getTime.simps)

text \<open>
  Two calls with the payload \<open>1\<close>, stamped five and fifteen seconds after an offline
  observation, the second resumed while the first waits for its segment to be written: the
  second computes its delta against the observation at zero seconds, so fifteen seconds
  are added to the offline total where ten belong to the online one, and both calls write
  a segment for the one change from offline to online. Neither order of the two calls one
  after the other gives these statistics.
\<close>

theorem overlapped_calls_counterexample:
  "overlapped demo_date_parse (demo_io T5, demo_payload 1) (demo_io T15, demo_payload 1)
       demo_stats =
     (\<lparr>total_online_ms = Some 0, total_offline_ms = Some 20000,
       last_status = Some True, last_timestamp = JStr T15\<rparr>,
      [\<lparr>snapshot_at = JStr T5, status = js ''offline'', start_at = JStr T0,
        end_at = JStr T5, duration_ms = Some 5000, duration_hms = js ''00:00:05''\<rparr>,
       \<lparr>snapshot_at = JStr T15, status = js ''offline'', start_at = JStr T0,
        end_at = JStr T15, duration_ms = Some 15000, duration_hms = js ''00:00:15''\<rparr>])
   \<and> one_after_the_other demo_date_parse (demo_io T5, demo_payload 1)
       (demo_io T15, demo_payload 1) demo_stats =
     (\<lparr>total_online_ms = Some 10000, total_offline_ms = Some 5000,
       last_status = Some True, last_timestamp = JStr T15\<rparr>,
      [\<lparr>snapshot_at = JStr T5, status = js ''offline'', start_at = JStr T0,
        end_at = JStr T5, duration_ms = Some 5000, duration_hms = js ''00:00:05''\<rparr>])
   \<and> one_after_the_other demo_date_parse (demo_io T15, demo_payload 1)
       (demo_io T5, demo_payload 1) demo_stats =
     (\<lparr>total_online_ms = Some 0, total_offline_ms = Some 15000,
       last_status = Some True, last_timestamp = JStr T5\<rparr>,
      [\<lparr>snapshot_at = JStr T15, status = js ''offline'', start_at = JStr T0,
        end_at = JStr T15, duration_ms = Some 15000, duration_hms = js ''00:00:15''\<rparr>])
   \<and> overlapped demo_date_parse (demo_io T5, demo_payload 1) (demo_io T15, demo_payload 1)
       demo_stats \<noteq>
     one_after_the_other demo_date_parse (demo_io T5, demo_payload 1)
       (demo_io T15, demo_payload 1) demo_stats
   \<and> overlapped demo_date_parse (demo_io T5, demo_payload 1) (demo_io T15, demo_payload 1)
       demo_stats \<noteq>
     one_after_the_other demo_date_parse (demo_io T15, demo_payload 1)
       (demo_io T5, demo_payload 1) demo_stats"
proof -
  have online: "computeOnline (demo_payload 1)"
    by (simp add: computeOnline_def demo_payload_def)
  have interleaved: "overlapped demo_date_parse (demo_io T5, demo_payload 1)
       (demo_io T15, demo_payload 1) demo_stats =
     (\<lparr>total_online_ms = Some 0, total_offline_ms = Some 20000,
       last_status = Some True, last_timestamp = JStr T15\<rparr>,
      [\<lparr>snapshot_at = JStr T5, status = js ''offline'', start_at = JStr T0,
        end_at = JStr T5, duration_ms = Some 5000, duration_hms = js ''00:00:05''\<rparr>,
       \<lparr>snapshot_at = JStr T15, status = js ''offline'', start_at = JStr T0,
        end_at = JStr T15, duration_ms = Some 15000, duration_hms = js ''00:00:15''\<rparr>])"
    by (simp add: overlapped_def call_appendReading_def Let_def demo_io_def demo_stats_def
        computeOnline_stamped online appendStatsSegment_def formatMs_seconds
        num_sub_def num_add_def Math_max0_def num_gt0_def demo_times)
  have first_then_second: "one_after_the_other demo_date_parse (demo_io T5, demo_payload 1)
       (demo_io T15, demo_payload 1) demo_stats =
     (\<lparr>total_online_ms = Some 10000, total_offline_ms = Some 5000,
       last_status = Some True, last_timestamp = JStr T15\<rparr>,
      [\<lparr>snapshot_at = JStr T5, status = js ''offline'', start_at = JStr T0,
        end_at = JStr T5, duration_ms = Some 5000, duration_hms = js ''00:00:05''\<rparr>])"
    by (simp add: one_after_the_other_def appendReading_def Let_def demo_io_def demo_stats_def
        computeOnline_stamped online appendStatsSegment_def formatMs_seconds
        num_sub_def num_add_def Math_max0_def num_gt0_def demo_times)
  have second_then_first: "one_after_the_other demo_date_parse (demo_io T15, demo_payload 1)
       (demo_io T5, demo_payload 1) demo_stats =
     (\<lparr>total_online_ms = Some 0, total_offline_ms = Some 15000,
       last_status = Some True, last_timestamp = JStr T5\<rparr>,
      [\<lparr>snapshot_at = JStr T15, status = js ''offline'', start_at = JStr T0,
        end_at = JStr T15, duration_ms = Some 15000, duration_hms = js ''00:00:15''\<rparr>])"
    by (simp add: one_after_the_other_def appendReading_def Let_def demo_io_def demo_stats_def
        computeOnline_stamped online appendStatsSegment_def formatMs_seconds
        num_sub_def num_add_def Math_max0_def num_gt0_def demo_times)
  have "overlapped demo_date_parse (demo_io T5, demo_payload 1) (demo_io T15, demo_payload 1)
       demo_stats \<noteq>
     one_after_the_other demo_date_parse (demo_io T5, demo_payload 1)
       (demo_io T15, demo_payload 1) demo_stats"
    unfolding interleaved first_then_second by simp
  moreover have "overlapped demo_date_parse (demo_io T5, demo_payload 1)
       (demo_io T15, demo_payload 1) demo_stats \<noteq>
     one_after_the_other demo_date_parse (demo_io T15, demo_payload 1)
       (demo_io T5, demo_payload 1) demo_stats"
    unfolding interleaved second_then_first by simp
  ultimately show ?thesis
    using interleaved first_then_second second_then_first by blast
qed


section \<open>The frame extractor on split chunks\<close>

lemma flush_chunk_one:
  "flushBuffer ([] @ ''garbage{\"power\":1}{\"pow'') = ([''{\"power\":1}''], ''{\"pow'')"
  by code_simp

lemma flush_chunk_two:
  "flushBuffer (''{\"pow'' @ ''er\":0'') = ([], ''{\"power\":0'')"
  by code_simp

lemma flush_closing:
  "flushBuffer (''{\"power\":0'' @ ''}'') = ([''{\"power\":0}''], [])"
  by code_simp

text \<open>
  C4. Fed the chunk \<^verbatim>\<open>garbage{"power":1}{"pow\<close> on an empty buffer and then the chunk
  \<^verbatim>\<open>er":0\<close>, the extractor yields exactly one parsed record (\<^verbatim>\<open>power:1\<close>) after the first chunk
  and none after the second: the frame \<^verbatim>\<open>{"power":0\<close> is still open and stays in the buffer.
  The record \<^verbatim>\<open>power:0\<close> is yielded when a later chunk brings the closing brace.
\<close>

theorem frame_extractor_chunks:
  assumes "parse ''{\"power\":1}'' = Some r1" and "parse ''{\"power\":0}'' = Some r0"
  shows "on_data parse [] ''garbage{\"power\":1}{\"pow'' = ([r1], ''{\"pow'')
       \<and> on_data parse ''{\"pow'' ''er\":0'' = ([], ''{\"power\":0'')
       \<and> on_data parse ''{\"power\":0'' ''}'' = ([r0], [])"
  using assms
  by (simp only: on_data_def flush_chunk_one flush_chunk_two flush_closing Let_def fst_conv snd_conv
      List.map_filter_simps option.simps)

theorem frame_extractor_chunks_witness:
  "demo_json_parse ''{\"power\":1}'' = Some (demo_payload 1)
   \<and> demo_json_parse ''{\"power\":0}'' = Some (demo_payload 0)
   \<and> on_data demo_json_parse [] ''garbage{\"power\":1}{\"pow'' = ([demo_payload 1], ''{\"pow'')
   \<and> on_data demo_json_parse ''{\"pow'' ''er\":0'' = ([], ''{\"power\":0'')
   \<and> on_data demo_json_parse ''{\"power\":0'' ''}'' = ([demo_payload 0], [])"
proof -
  have h1: "demo_json_parse ''{\"power\":1}'' = Some (demo_payload 1)"
    and h0: "demo_json_parse ''{\"power\":0}'' = Some (demo_payload 0)"
    by (simp_all add: demo_json_parse_def)
  from frame_extractor_chunks [OF h1 h0] h1 h0 show ?thesis by blast
qed

theorem frame_extractor_second_chunk_counterexample:
  "\<not> (fst (on_data demo_json_parse [] ''garbage{\"power\":1}{\"pow'') = [demo_payload 1]
      \<and> fst (on_data demo_json_parse
               (snd (on_data demo_json_parse [] ''garbage{\"power\":1}{\"pow'')) ''er\":0'')
          = [demo_payload 0])"
proof -
  have one: "on_data demo_json_parse [] ''garbage{\"power\":1}{\"pow'' = ([demo_payload 1], ''{\"pow'')"
    by (simp only: on_data_def flush_chunk_one Let_def fst_conv snd_conv)
       (simp add: List.map_filter_simps demo_json_parse_def)
  have two: "on_data demo_json_parse ''{\"pow'' ''er\":0'' = ([], ''{\"power\":0'')"
    by (simp only: on_data_def flush_chunk_two Let_def fst_conv snd_conv)
       (simp add: List.map_filter_simps)
  show ?thesis by (simp add: one two)
qed

end
